theory Spec2Isabelle
  imports Complex_Main
begin

section \<open>JavaScript strings\<close>

text \<open>
  A JavaScript string is modelled as a \<^typ>\<open>string\<close>, one \<^typ>\<open>char\<close> per code unit
  (code units above 0xFF are outside the model).  The functions below are the
  built-in string methods the plugin calls, each with the call it stands for.
\<close>

fun startsWith :: "string \<Rightarrow> string \<Rightarrow> bool" where
  \<comment> \<open>\<^verbatim>\<open>s.startsWith(p)\<close>\<close>
  "startsWith s [] = True"
| "startsWith [] (p # ps) = False"
| "startsWith (c # s) (p # ps) = (c = p \<and> startsWith s ps)"

fun str_includes :: "string \<Rightarrow> string \<Rightarrow> bool" where
  \<comment> \<open>\<^verbatim>\<open>s.includes(sub)\<close>\<close>
  "str_includes [] sub = (sub = [])"
| "str_includes (c # s) sub = (startsWith (c # s) sub \<or> str_includes s sub)"

text \<open>
  \<^verbatim>\<open>s.replace(pat, rep)\<close> with a string pattern replaces the first occurrence only.
  The replacement text is a template: \<^verbatim>\<open>$$\<close> stands for a dollar sign, \<^verbatim>\<open>$&\<close> for the
  matched text, \<^verbatim>\<open>$`\<close> for the text before the match and \<^verbatim>\<open>$'\<close> for the text after it;
  a string pattern captures nothing, so any other use of the dollar sign stands for
  itself.
\<close>

fun expand_template :: "string \<Rightarrow> string \<Rightarrow> string \<Rightarrow> string \<Rightarrow> string" where
  "expand_template [] pre matched post = []"
| "expand_template [c] pre matched post = [c]"
| "expand_template (c # d # t) pre matched post =
     (if c = CHR ''$'' \<and> d = CHR ''$'' then CHR ''$'' # expand_template t pre matched post
      else if c = CHR ''$'' \<and> d = CHR ''&'' then matched @ expand_template t pre matched post
      else if c = CHR ''$'' \<and> d = CHR 0x60 then pre @ expand_template t pre matched post
      else if c = CHR ''$'' \<and> d = CHR 0x27 then post @ expand_template t pre matched post
      else c # expand_template (d # t) pre matched post)"

fun replace_first_from :: "string \<Rightarrow> string \<Rightarrow> string \<Rightarrow> string \<Rightarrow> string" where
  \<comment> \<open>the first argument is the text already passed over\<close>
  "replace_first_from pre [] pat rep = (if pat = [] then expand_template rep pre [] [] else [])"
| "replace_first_from pre (c # s) pat rep =
     (if startsWith (c # s) pat
      then expand_template rep pre pat (drop (length pat) (c # s)) @ drop (length pat) (c # s)
      else c # replace_first_from (pre @ [c]) s pat rep)"

definition replace_first :: "string \<Rightarrow> string \<Rightarrow> string \<Rightarrow> string" where
  "replace_first s pat rep = replace_first_from [] s pat rep"

definition replace_all_char :: "char \<Rightarrow> char \<Rightarrow> string \<Rightarrow> string" where
  \<comment> \<open>\<^verbatim>\<open>s.replace(/c/g, 'd')\<close> for single characters \<open>c\<close> and \<open>d\<close>\<close>
  "replace_all_char c d s = map (\<lambda>x. if x = c then d else x) s"

fun split :: "char \<Rightarrow> string \<Rightarrow> string list" where
  \<comment> \<open>\<^verbatim>\<open>s.split(d)\<close>: never empty, \<^verbatim>\<open>''.split(d)\<close> is \<^verbatim>\<open>['']\<close>\<close>
  "split d [] = [[]]"
| "split d (c # cs) =
     (if c = d then [] # split d cs
      else (case split d cs of [] \<Rightarrow> [[c]] | p # ps \<Rightarrow> (c # p) # ps))"

fun join :: "char \<Rightarrow> string list \<Rightarrow> string" where
  \<comment> \<open>\<^verbatim>\<open>parts.join(d)\<close>\<close>
  "join d [] = []"
| "join d [p] = p"
| "join d (p # q # ps) = p @ d # join d (q # ps)"

definition is_space :: "char \<Rightarrow> bool" where
  \<comment> \<open>the white space and line terminators that \<^verbatim>\<open>trim\<close> strips, among the
      code units below 0x100: TAB, LF, VT, FF, CR, SP, NBSP\<close>
  "is_space c = (c \<in> set [CHR 0x09, CHR 0x0A, CHR 0x0B, CHR 0x0C, CHR 0x0D, CHR 0x20, CHR 0xA0])"

definition trim :: "string \<Rightarrow> string" where
  \<comment> \<open>\<^verbatim>\<open>s.trim()\<close>\<close>
  "trim s = rev (dropWhile is_space (rev (dropWhile is_space s)))"

section \<open>Identifier codec\<close>

text \<open>
  \<^verbatim>\<open>urnToMqttFormat\<close> and \<^verbatim>\<open>mqttFormatToUrn\<close>.  The argument is \<^verbatim>\<open>null\<close> or a
  string (\<open>None\<close> or \<open>Some s\<close>); \<^verbatim>\<open>!urn\<close> holds of \<^verbatim>\<open>null\<close> and of the empty
  string, and the function then returns \<^verbatim>\<open>null\<close>.
\<close>

fun urnToMqttFormat :: "string option \<Rightarrow> string option" where
  "urnToMqttFormat None = None"
| "urnToMqttFormat (Some urn) =
     (if urn = [] then None else Some (replace_all_char (CHR '':'') (CHR ''_'') urn))"

fun mqttFormatToUrn :: "string option \<Rightarrow> string option" where
  "mqttFormatToUrn None = None"
| "mqttFormatToUrn (Some mqttFormat) =
     (if mqttFormat = [] then None
      else Some (replace_all_char (CHR ''_'') (CHR '':'') mqttFormat))"

text \<open>
  The shape the specification calls canonical, \<^verbatim>\<open>urn:<namespace-path>:<numeric-id>\<close>:
  colon-separated parts, none empty, the first \<^verbatim>\<open>urn\<close>, the last a run of digits,
  at least one part of namespace path between them.  The transport shape is the same
  with the underscore as separator.  Neither is a function of the plugin; they only
  delimit the identifiers the round-trip statements range over.
\<close>

definition is_digit :: "char \<Rightarrow> bool" where
  "is_digit c = (c \<in> set ''0123456789'')"

definition spec_shape :: "char \<Rightarrow> string \<Rightarrow> bool" where
  "spec_shape d i =
     (let parts = split d i
      in 3 \<le> length parts \<and> hd parts = ''urn'' \<and> list_all (\<lambda>p. p \<noteq> []) parts
         \<and> list_all is_digit (last parts))"

definition spec_canonical_shape :: "string \<Rightarrow> bool" where
  "spec_canonical_shape i = spec_shape (CHR '':'') i"

definition spec_transport_shape :: "string \<Rightarrow> bool" where
  "spec_transport_shape t = spec_shape (CHR ''_'') t"

section \<open>JavaScript values\<close>

text \<open>
  The values the plugin handles: what \<^verbatim>\<open>JSON.parse\<close> returns, \<^verbatim>\<open>undefined\<close> for an
  absent property, and a function value (the plugin meets one when it reads
  \<^verbatim>\<open>values\<close> on an array, which is \<^verbatim>\<open>Array.prototype.values\<close>).  An object is the list
  of its own properties in insertion order.  A number is a rational or an infinity
  (\<^verbatim>\<open>JSON.parse('1e999')\<close>); \<^verbatim>\<open>NaN\<close> is not a value \<^verbatim>\<open>JSON.parse\<close> returns, and the one
  place where the plugin could make it tests for it first.
\<close>

datatype jnum = Fin rat | PosInf | NegInf

datatype jsval =
    JUndefined
  | JNull
  | JBool bool
  | JNum jnum
  | JStr string
  | JArr "jsval list"
  | JObj "(string \<times> jsval) list"
  | JFun

fun truthy :: "jsval \<Rightarrow> bool" where
  "truthy JUndefined = False"
| "truthy JNull = False"
| "truthy (JBool b) = b"
| "truthy (JNum n) = (n \<noteq> Fin 0)"
| "truthy (JStr s) = (s \<noteq> [])"
| "truthy (JArr xs) = True"
| "truthy (JObj fs) = True"
| "truthy JFun = True"

fun isArray :: "jsval \<Rightarrow> bool" where
  \<comment> \<open>\<^verbatim>\<open>Array.isArray(v)\<close>\<close>
  "isArray (JArr xs) = True"
| "isArray v = False"

text \<open>
  Reading a property, for the four names the plugin reads from payload data:
  \<^verbatim>\<open>context\<close>, \<^verbatim>\<open>updates\<close>, \<^verbatim>\<open>values\<close> and \<^verbatim>\<open>value\<close>.  On \<^verbatim>\<open>null\<close> and \<^verbatim>\<open>undefined\<close> the
  read throws a TypeError (\<open>None\<close>).  An object gives its own property or \<^verbatim>\<open>undefined\<close>
  (\<^verbatim>\<open>Object.prototype\<close> has none of the four).  An array gives the prototype's
  method for \<^verbatim>\<open>values\<close> and \<^verbatim>\<open>undefined\<close> for the other three; the primitives and
  functions give \<^verbatim>\<open>undefined\<close>.
\<close>

definition own_prop :: "(string \<times> jsval) list \<Rightarrow> string \<Rightarrow> jsval" where
  "own_prop fs k = (case map_of fs k of None \<Rightarrow> JUndefined | Some v \<Rightarrow> v)"

fun get_prop :: "jsval \<Rightarrow> string \<Rightarrow> jsval option" where
  "get_prop JUndefined k = None"
| "get_prop JNull k = None"
| "get_prop (JObj fs) k = Some (own_prop fs k)"
| "get_prop (JArr xs) k = Some (if k = ''values'' then JFun else JUndefined)"
| "get_prop v k = Some JUndefined"

section \<open>Rules and configuration\<close>

text \<open>
  An import rule, with the fields the message handler reads.  \<^verbatim>\<open>excludeMMSI\<close> is absent
  from some of the default rules, hence the option.  \<^verbatim>\<open>transformValue\<close> is a function
  only for a rule built in the process (a rule loaded from the rule file or posted to
  the API is JSON, which holds no function); \<open>None\<close> is every other case, and a
  transform that throws returns \<open>None\<close>.
\<close>

record rule =
  rule_id :: string
  name :: string
  mqttTopic :: string
  signalKContext :: string
  signalKPath :: string
  sourceLabel :: string
  enabled :: bool
  payloadFormat :: string
  ignoreDuplicates :: bool
  excludeMMSI :: "string option"
  transformValue :: "(jsval \<Rightarrow> jsval option) option"

text \<open>
  What the handler reads besides the rules: \<^verbatim>\<open>plugin.config.topicPrefix\<close> (a string,
  empty when not configured) and \<^verbatim>\<open>selfVesselUrn\<close> (\<^verbatim>\<open>null\<close> until resolved).
\<close>

record config =
  topicPrefix :: string
  selfVesselUrn :: "string option"

section \<open>Regular expressions of the topic matcher\<close>

text \<open>
  The matcher builds \<^verbatim>\<open>new RegExp(pattern.replace(/\+/g, '[^/]+'))\<close>: the rule's pattern
  is the source of the regular expression.  The model covers the sources made of
  characters that stand for themselves and of the class \<^verbatim>\<open>[^/]+\<close>; a source with any
  other syntax character of regular expressions is outside the model (\<open>None\<close>).
\<close>

datatype re_item = Lit char | NotSlashPlus

definition re_syntax_char :: "char \<Rightarrow> bool" where
  "re_syntax_char c =
     (c \<in> set [CHR 0x5C, CHR ''^'', CHR ''$'', CHR ''.'', CHR ''*'', CHR ''+'', CHR ''?'',
                CHR ''('', CHR '')'', CHR ''['', CHR '']'', CHR ''{'', CHR ''}'', CHR ''|''])"

function RegExp :: "string \<Rightarrow> re_item list option" where
  "RegExp [] = Some []"
| "RegExp (c # cs) =
     (if startsWith (c # cs) ''[^/]+''
      then map_option (Cons NotSlashPlus) (RegExp (drop 5 (c # cs)))
      else if re_syntax_char c then None
      else map_option (Cons (Lit c)) (RegExp cs))"
  by pat_completeness auto
termination
  by (relation "measure length") auto

fun match_here :: "re_item list \<Rightarrow> string \<Rightarrow> bool" where
  \<comment> \<open>a match of the whole expression that starts at the head of the string\<close>
  "match_here [] s = True"
| "match_here (Lit c # re) [] = False"
| "match_here (Lit c # re) (x # s) = (x = c \<and> match_here re s)"
| "match_here (NotSlashPlus # re) [] = False"
| "match_here (NotSlashPlus # re) (x # s) =
     (x \<noteq> CHR ''/'' \<and> (match_here (NotSlashPlus # re) s \<or> match_here re s))"

fun regex_test :: "re_item list \<Rightarrow> string \<Rightarrow> bool" where
  \<comment> \<open>\<^verbatim>\<open>regex.test(s)\<close>: a match that starts at some position of the string\<close>
  "regex_test re [] = match_here re []"
| "regex_test re (c # s) = (match_here re (c # s) \<or> regex_test re s)"

definition plus_to_class :: "string \<Rightarrow> string" where
  \<comment> \<open>\<^verbatim>\<open>p.replace(/\+/g, '[^/]+')\<close>\<close>
  "plus_to_class p = concat (map (\<lambda>c. if c = CHR ''+'' then ''[^/]+'' else [c]) p)"

section \<open>Topic matcher\<close>

text \<open>
  The computation of \<^verbatim>\<open>matches\<close> in the loop of \<^verbatim>\<open>handleMQTTMessage\<close>, for one rule's
  prefixed pattern \<^verbatim>\<open>expectedTopic\<close>.  \<open>subst_self\<close> is
  \<^verbatim>\<open>s.replace('vessels/self/', `vessels/${urn}/`)\<close>.  A result \<open>None\<close> of the matcher is a
  pattern outside the model of regular expressions.
\<close>

definition subst_self :: "string \<Rightarrow> string \<Rightarrow> string" where
  "subst_self s urn = replace_first s ''vessels/self/'' (''vessels/'' @ urn @ ''/'')"

definition underscore_to_colon :: "string \<Rightarrow> string" where
  \<comment> \<open>\<^verbatim>\<open>s.replace(/_/g, ':')\<close>\<close>
  "underscore_to_colon s = replace_all_char (CHR ''_'') (CHR '':'') s"

definition plain_hash :: "string \<Rightarrow> string \<Rightarrow> bool" where
  "plain_hash prefix topic =
     (startsWith topic prefix \<or> startsWith topic (underscore_to_colon prefix))"

definition self_hash :: "string \<Rightarrow> string \<Rightarrow> string \<Rightarrow> bool" where
  "self_hash urn prefix topic =
     (let urnPrefix = subst_self prefix urn;
          underscoreUrn = urnToMqttFormat (Some urn);
          underscorePrefix = map_option (subst_self prefix) underscoreUrn
      in startsWith topic prefix \<or> startsWith topic urnPrefix
         \<or> (case underscorePrefix of
               None \<Rightarrow> False
             | Some up \<Rightarrow> up \<noteq> [] \<and> startsWith topic up))"

definition matches_hash :: "string option \<Rightarrow> string \<Rightarrow> string \<Rightarrow> bool option" where
  \<comment> \<open>the branch \<^verbatim>\<open>expectedTopic.includes('#')\<close>\<close>
  "matches_hash self expected topic =
     (let prefix = replace_first expected ''#'' [] in
      case self of
        None \<Rightarrow> Some (plain_hash prefix topic)
      | Some urn \<Rightarrow>
          if str_includes prefix ''vessels/self/'' \<and> urn \<noteq> []
          then Some (self_hash urn prefix topic)
          else Some (plain_hash prefix topic))"

definition plain_plus :: "string \<Rightarrow> string \<Rightarrow> bool option" where
  "plain_plus expected topic =
     (case (RegExp (plus_to_class expected),
            RegExp (plus_to_class (underscore_to_colon expected))) of
        (Some underscoreRegex, Some colonRegex) \<Rightarrow>
          Some (regex_test underscoreRegex topic \<or> regex_test colonRegex topic)
      | _ \<Rightarrow> None)"

definition self_plus :: "string \<Rightarrow> string \<Rightarrow> string \<Rightarrow> bool option" where
  "self_plus urn expected topic =
     (let urnPattern = subst_self expected urn;
          underscoreUrn = urnToMqttFormat (Some urn);
          underscorePattern = map_option (subst_self expected) underscoreUrn
      in case (RegExp (plus_to_class expected), RegExp (plus_to_class urnPattern)) of
           (Some selfRegex, Some urnRegex) \<Rightarrow>
             (case underscorePattern of
                None \<Rightarrow> Some (regex_test selfRegex topic \<or> regex_test urnRegex topic)
              | Some up \<Rightarrow>
                  if up = [] then Some (regex_test selfRegex topic \<or> regex_test urnRegex topic)
                  else
                    (case RegExp (plus_to_class up) of
                       None \<Rightarrow> None
                     | Some underscoreRegex \<Rightarrow>
                         Some (regex_test selfRegex topic \<or> regex_test urnRegex topic
                               \<or> regex_test underscoreRegex topic)))
         | _ \<Rightarrow> None)"

definition matches_plus :: "string option \<Rightarrow> string \<Rightarrow> string \<Rightarrow> bool option" where
  \<comment> \<open>the branch \<^verbatim>\<open>expectedTopic.includes('+')\<close>\<close>
  "matches_plus self expected topic =
     (case self of
        None \<Rightarrow> plain_plus expected topic
      | Some urn \<Rightarrow>
          if str_includes expected ''vessels/self/'' \<and> urn \<noteq> [] then self_plus urn expected topic
          else plain_plus expected topic)"

definition plain_exact :: "string \<Rightarrow> string \<Rightarrow> bool" where
  "plain_exact expected topic = (topic = expected \<or> topic = underscore_to_colon expected)"

definition self_exact :: "string \<Rightarrow> string \<Rightarrow> string \<Rightarrow> bool" where
  "self_exact urn expected topic =
     (let urnTopic = subst_self expected urn;
          underscoreUrn = urnToMqttFormat (Some urn);
          underscoreTopic = map_option (subst_self expected) underscoreUrn
      in topic = expected \<or> topic = urnTopic
         \<or> (case underscoreTopic of
               None \<Rightarrow> False
             | Some ut \<Rightarrow> ut \<noteq> [] \<and> topic = ut))"

definition matches_exact :: "string option \<Rightarrow> string \<Rightarrow> string \<Rightarrow> bool option" where
  \<comment> \<open>the branch without wildcard\<close>
  "matches_exact self expected topic =
     (case self of
        None \<Rightarrow> Some (plain_exact expected topic)
      | Some urn \<Rightarrow>
          if str_includes expected ''vessels/self/'' \<and> urn \<noteq> []
          then Some (self_exact urn expected topic)
          else Some (plain_exact expected topic))"

definition topic_matches :: "string option \<Rightarrow> string \<Rightarrow> string \<Rightarrow> bool option" where
  "topic_matches self expected topic =
     (if str_includes expected ''#'' then matches_hash self expected topic
      else if str_includes expected ''+'' then matches_plus self expected topic
      else matches_exact self expected topic)"

section \<open>MMSI exclusion\<close>

text \<open>
  \<^verbatim>\<open>extractMMSIFromUrn\<close> searches its argument for
  \<^verbatim>\<open>/urn[_:]+mrn[_:]+imo[_:]+mmsi[_:]+([0-9]+)/\<close> and returns the captured digits.
  Each run of separators is followed by a letter or a digit, which is no separator,
  so a match takes every run whole; the digits are taken greedily; the search
  returns the match that starts leftmost.
\<close>

definition is_delim :: "char \<Rightarrow> bool" where
  "is_delim c = (c = CHR ''_'' \<or> c = CHR '':'')"

definition eat_lit :: "string \<Rightarrow> string \<Rightarrow> string option" where
  "eat_lit lit s = (if startsWith s lit then Some (drop (length lit) s) else None)"

definition eat_delims :: "string \<Rightarrow> string option" where
  "eat_delims s = (case takeWhile is_delim s of [] \<Rightarrow> None | _ # _ \<Rightarrow> Some (dropWhile is_delim s))"

definition eat_digits :: "string \<Rightarrow> string option" where
  "eat_digits s = (case takeWhile is_digit s of [] \<Rightarrow> None | d # ds \<Rightarrow> Some (d # ds))"

definition mmsi_here :: "string \<Rightarrow> string option" where
  "mmsi_here s =
     Option.bind (eat_lit ''urn'' s) (\<lambda>s.
     Option.bind (eat_delims s) (\<lambda>s.
     Option.bind (eat_lit ''mrn'' s) (\<lambda>s.
     Option.bind (eat_delims s) (\<lambda>s.
     Option.bind (eat_lit ''imo'' s) (\<lambda>s.
     Option.bind (eat_delims s) (\<lambda>s.
     Option.bind (eat_lit ''mmsi'' s) (\<lambda>s.
     Option.bind (eat_delims s) eat_digits)))))))"

fun mmsi_search :: "string \<Rightarrow> string option" where
  "mmsi_search [] = None"
| "mmsi_search (c # cs) =
     (case mmsi_here (c # cs) of Some d \<Rightarrow> Some d | None \<Rightarrow> mmsi_search cs)"

definition extractMMSIFromUrn :: "string \<Rightarrow> string option" where
  "extractMMSIFromUrn urn = (if urn = [] then None else mmsi_search urn)"

definition parseMMSIExclusionList :: "string option \<Rightarrow> string list" where
  "parseMMSIExclusionList e =
     (case e of
        None \<Rightarrow> []
      | Some excl \<Rightarrow>
          if excl = [] then []
          else filter (\<lambda>mmsi. 0 < length mmsi) (map trim (split (CHR '','') excl)))"

definition isMMSIExcluded :: "string \<Rightarrow> rule \<Rightarrow> bool" where
  "isMMSIExcluded topic r =
     (let exclusionList = parseMMSIExclusionList (excludeMMSI r) in
      if length exclusionList = 0 then False
      else
        (case split (CHR ''/'') topic of
           p0 # vesselId # _ \<Rightarrow>
             if p0 \<noteq> ''vessels'' then False
             else
               (case extractMMSIFromUrn vesselId of
                  None \<Rightarrow> False
                | Some mmsi \<Rightarrow> if mmsi = [] then False else mmsi \<in> set exclusionList)
         | _ \<Rightarrow> False))"

section \<open>Rule search\<close>

text \<open>
  The loop \<^verbatim>\<open>for (const r of importRules)\<close> of \<^verbatim>\<open>handleMQTTMessage\<close>.  Its first
  statement is \<^verbatim>\<open>if (!r.enabled) return false;\<close>, which leaves the whole handler
  (\<open>ReturnedFalse\<close>).  \<open>Found r\<close> is the \<^verbatim>\<open>break\<close> with \<^verbatim>\<open>rule = r\<close>, \<open>NoRule\<close> the end
  of the list with \<^verbatim>\<open>rule\<close> still \<^verbatim>\<open>null\<close>, \<open>OutsideSearch\<close> a pattern outside the model
  of the matcher.
\<close>

datatype search = Found rule | NoRule | ReturnedFalse | OutsideSearch

definition expectedTopic :: "config \<Rightarrow> rule \<Rightarrow> string" where
  "expectedTopic cfg r =
     (if topicPrefix cfg \<noteq> [] then topicPrefix cfg @ ''/'' @ mqttTopic r else mqttTopic r)"

fun find_rule :: "config \<Rightarrow> rule list \<Rightarrow> string \<Rightarrow> search" where
  "find_rule cfg [] topic = NoRule"
| "find_rule cfg (r # rs) topic =
     (if \<not> enabled r then ReturnedFalse
      else
        (case topic_matches (selfVesselUrn cfg) (expectedTopic cfg r) topic of
           None \<Rightarrow> OutsideSearch
         | Some matches \<Rightarrow>
             if matches \<and> isMMSIExcluded topic r then find_rule cfg rs topic
             else if matches then Found r
             else find_rule cfg rs topic))"

text \<open>
  The search of the earlier revision of the handler, kept in the same file:
  \<^verbatim>\<open>importRules.find(r => { if (!r.enabled) return false; ... })\<close>.  There the
  \<^verbatim>\<open>return false\<close> leaves the callback, and \<^verbatim>\<open>find\<close> goes on to the next rule.
  The earlier matcher has no self placeholder, no second encoding and no exclusion.
\<close>

definition topic_matches_v1 :: "string \<Rightarrow> string \<Rightarrow> bool option" where
  "topic_matches_v1 expected topic =
     (if str_includes expected ''#'' then Some (startsWith topic (replace_first expected ''#'' []))
      else if str_includes expected ''+'' then
        map_option (\<lambda>regex. regex_test regex topic) (RegExp (plus_to_class expected))
      else Some (topic = expected))"

fun find_rule_v1 :: "config \<Rightarrow> rule list \<Rightarrow> string \<Rightarrow> search" where
  "find_rule_v1 cfg [] topic = NoRule"
| "find_rule_v1 cfg (r # rs) topic =
     (if \<not> enabled r then find_rule_v1 cfg rs topic
      else
        (case topic_matches_v1 (expectedTopic cfg r) topic of
           None \<Rightarrow> OutsideSearch
         | Some matches \<Rightarrow> if matches then Found r else find_rule_v1 cfg rs topic))"

section \<open>Deduplication map\<close>

text \<open>
  \<^verbatim>\<open>lastReceivedMessages\<close> is a \<^verbatim>\<open>Map\<close> from message key to the time of insertion.  A
  \<^verbatim>\<open>Map\<close> iterates in insertion order, so it is a list of entries, oldest first, with
  the operations \<^verbatim>\<open>has\<close>, \<^verbatim>\<open>set\<close> (a present key keeps its place) and \<^verbatim>\<open>delete\<close>.
\<close>

type_synonym dedup = "(string \<times> nat) list"

definition map_has :: "dedup \<Rightarrow> string \<Rightarrow> bool" where
  "map_has m k = (k \<in> set (map fst m))"

fun map_set :: "dedup \<Rightarrow> string \<Rightarrow> nat \<Rightarrow> dedup" where
  "map_set [] k v = [(k, v)]"
| "map_set (e # m) k v = (if fst e = k then (k, v) # m else e # map_set m k v)"

definition map_delete :: "dedup \<Rightarrow> string \<Rightarrow> dedup" where
  "map_delete m k = filter (\<lambda>e. fst e \<noteq> k) m"

definition messageKey :: "string \<Rightarrow> string \<Rightarrow> string" where
  \<comment> \<open>\<^verbatim>\<open>`${topic}:${messageStr}`\<close>\<close>
  "messageKey topic messageStr = topic @ '':'' @ messageStr"

definition cleanup :: "dedup \<Rightarrow> dedup" where
  \<comment> \<open>the block under \<^verbatim>\<open>if (lastReceivedMessages.size > 1000)\<close>\<close>
  "cleanup m =
     (if 1000 < length m
      then (let entries = m; oldest = take 500 entries
            in fold (\<lambda>e m'. map_delete m' (fst e)) oldest m)
      else m)"

definition dedup_step :: "dedup \<Rightarrow> string \<Rightarrow> nat \<Rightarrow> bool \<times> dedup" where
  \<comment> \<open>the body of \<^verbatim>\<open>if (rule.ignoreDuplicates)\<close>: whether the handler returns there, and
      the map afterwards\<close>
  "dedup_step m k now =
     (if map_has m k then (True, m) else (False, cleanup (map_set m k now)))"

section \<open>Context and path from the topic\<close>

definition cleanTopic :: "config \<Rightarrow> string \<Rightarrow> string" where
  \<comment> \<open>\<^verbatim>\<open>cleanTopic.replace(`${plugin.config.topicPrefix}/`, '')\<close> when a prefix is
      configured: the first occurrence, wherever it stands\<close>
  "cleanTopic cfg topic =
     (if topicPrefix cfg \<noteq> [] then replace_first topic (topicPrefix cfg @ ''/'') [] else topic)"

definition is_self :: "string option \<Rightarrow> string \<Rightarrow> bool" where
  \<comment> \<open>\<^verbatim>\<open>selfVesselUrn && (urnToMqttFormat(selfVesselUrn) === vesselId || selfVesselUrn === vesselId)\<close>\<close>
  "is_self self vesselId =
     (case self of
        None \<Rightarrow> False
      | Some urn \<Rightarrow>
          urn \<noteq> [] \<and> (urnToMqttFormat (Some urn) = Some vesselId \<or> urn = vesselId))"

definition extractContextFromTopic :: "config \<Rightarrow> string \<Rightarrow> string" where
  "extractContextFromTopic cfg topic =
     (case split (CHR ''/'') (cleanTopic cfg topic) of
        p0 # vesselId # p2 # rest \<Rightarrow>
          if p0 = ''vessels'' then
            (if is_self (selfVesselUrn cfg) vesselId then ''vessels.self''
             else if startsWith vesselId ''urn_'' then
               ''vessels.'' @ (case mqttFormatToUrn (Some vesselId) of None \<Rightarrow> ''null'' | Some u \<Rightarrow> u)
             else if startsWith vesselId ''urn:'' then ''vessels.'' @ vesselId
             else ''vessels.'' @ vesselId)
          else ''vessels.self''
      | _ \<Rightarrow> ''vessels.self'')"

definition extractPathFromTopic :: "config \<Rightarrow> string \<Rightarrow> string" where
  "extractPathFromTopic cfg topic =
     (case split (CHR ''/'') (cleanTopic cfg topic) of
        p0 # vesselId # p2 # rest \<Rightarrow>
          if p0 = ''vessels'' then join (CHR ''.'') (p2 # rest)
          else replace_all_char (CHR ''/'') (CHR ''.'') (cleanTopic cfg topic)
      | _ \<Rightarrow> replace_all_char (CHR ''/'') (CHR ''.'') (cleanTopic cfg topic))"

section \<open>Payload interpreter\<close>

text \<open>
  The two built-in conversions the interpreter calls are parameters: \<open>json_parse\<close> is
  \<^verbatim>\<open>JSON.parse\<close> (\<open>None\<close> where it throws), \<open>to_number\<close> is \<^verbatim>\<open>Number\<close> applied to a string
  (\<open>None\<close> where it gives \<^verbatim>\<open>NaN\<close>).  The time stamp \<^verbatim>\<open>new Date().toISOString()\<close> is an
  argument.
\<close>

record builtins =
  json_parse :: "string \<Rightarrow> jsval option"
  to_number :: "string \<Rightarrow> jnum option"

definition delta :: "jsval \<Rightarrow> string \<Rightarrow> string \<Rightarrow> string \<Rightarrow> jsval \<Rightarrow> jsval" where
  \<comment> \<open>the object literal both parsers return\<close>
  "delta ctx pth label stamp v =
     JObj [(''context'', ctx),
           (''updates'', JArr [JObj [
              (''source'', JObj [(''label'', JStr label), (''type'', JStr ''mqtt'')]),
              (''timestamp'', JStr stamp),
              (''values'', JArr [JObj [(''path'', JStr pth), (''value'', v)]])]])]"

definition rule_path :: "config \<Rightarrow> rule \<Rightarrow> string \<Rightarrow> string" where
  \<comment> \<open>\<^verbatim>\<open>rule.signalKPath || extractPathFromTopic(topic, rule)\<close>\<close>
  "rule_path cfg r topic =
     (if signalKPath r \<noteq> [] then signalKPath r else extractPathFromTopic cfg topic)"

definition parseValueOnlyMessage ::
  "builtins \<Rightarrow> config \<Rightarrow> string \<Rightarrow> rule \<Rightarrow> string \<Rightarrow> string \<Rightarrow> jsval option" where
  "parseValueOnlyMessage bi cfg messageStr r topic stamp =
     (let v = (case json_parse bi messageStr of
                 Some parsed \<Rightarrow> parsed
               | None \<Rightarrow>
                   (case to_number bi messageStr of
                      None \<Rightarrow> JStr messageStr
                    | Some n \<Rightarrow> JNum n));
          ctx = (if signalKContext r \<noteq> [] then signalKContext r
                 else extractContextFromTopic cfg topic)
      in Some (delta (JStr ctx) (rule_path cfg r topic) (sourceLabel r) stamp v))"

text \<open>
  \<^verbatim>\<open>parseFullSignalKMessage\<close> returns \<^verbatim>\<open>null\<close> (\<open>None\<close>) from its \<^verbatim>\<open>catch\<close>: when
  \<^verbatim>\<open>JSON.parse\<close> throws, and when the parsed value is \<^verbatim>\<open>null\<close>, whose property read
  throws.
\<close>

definition parseFullSignalKMessage ::
  "builtins \<Rightarrow> config \<Rightarrow> string \<Rightarrow> rule \<Rightarrow> string \<Rightarrow> string \<Rightarrow> jsval option" where
  "parseFullSignalKMessage bi cfg messageStr r topic stamp =
     (case json_parse bi messageStr of
        None \<Rightarrow> None
      | Some parsed \<Rightarrow>
          (case (get_prop parsed ''context'', get_prop parsed ''updates'') of
             (Some c, Some u) \<Rightarrow>
               if truthy c \<and> truthy u then Some parsed
               else
                 (let ctx = (if signalKContext r \<noteq> [] then JStr (signalKContext r)
                             else if truthy c then c
                             else JStr (extractContextFromTopic cfg topic))
                  in Some (delta ctx (rule_path cfg r topic) (sourceLabel r) stamp parsed))
           | _ \<Rightarrow> None))"

section \<open>Delivery\<close>

text \<open>
  \<^verbatim>\<open>sendToSignalK\<close>.  \<open>Sent d\<close> is the call \<^verbatim>\<open>app.handleMessage(plugin.id, d)\<close>; \<open>Invalid\<close>
  is the return after the validation; \<open>SendThrew\<close> is the \<^verbatim>\<open>catch\<close>; \<open>SendOutside\<close> is
  a transform applied to an array where an object with a \<^verbatim>\<open>value\<close> is expected, which
  would give the array a named property the model has no place for.
\<close>

datatype 'a attempt = Done 'a | Throws | Outside

datatype send_result = Sent jsval | Invalid | SendThrew | SendOutside

fun set_prop :: "(string \<times> jsval) list \<Rightarrow> string \<Rightarrow> jsval \<Rightarrow> (string \<times> jsval) list" where
  \<comment> \<open>\<^verbatim>\<open>obj[k] = v\<close> on the own properties of an object\<close>
  "set_prop [] k v = [(k, v)]"
| "set_prop (e # fs) k v = (if fst e = k then (k, v) # fs else e # set_prop fs k v)"

definition transform_value :: "(jsval \<Rightarrow> jsval option) \<Rightarrow> jsval \<Rightarrow> jsval attempt" where
  \<comment> \<open>\<^verbatim>\<open>valueUpdate.value = rule.transformValue(valueUpdate.value)\<close>; the assignment to a
      property of a primitive is ignored (the file is not in strict mode)\<close>
  "transform_value f valueUpdate =
     (case get_prop valueUpdate ''value'' of
        None \<Rightarrow> Throws
      | Some old \<Rightarrow>
          (case f old of
             None \<Rightarrow> Throws
           | Some new \<Rightarrow>
               (case valueUpdate of
                  JObj fs \<Rightarrow> Done (JObj (set_prop fs ''value'' new))
                | JArr xs \<Rightarrow> Outside
                | JFun \<Rightarrow> Outside
                | _ \<Rightarrow> Done valueUpdate)))"

fun attempt_all :: "('a \<Rightarrow> 'a attempt) \<Rightarrow> 'a list \<Rightarrow> 'a list attempt" where
  \<comment> \<open>\<^verbatim>\<open>forEach\<close> with a callback that may throw: the first failure ends the loop\<close>
  "attempt_all g [] = Done []"
| "attempt_all g (x # xs) =
     (case g x of
        Done y \<Rightarrow> (case attempt_all g xs of Done ys \<Rightarrow> Done (y # ys) | Throws \<Rightarrow> Throws | Outside \<Rightarrow> Outside)
      | Throws \<Rightarrow> Throws
      | Outside \<Rightarrow> Outside)"

definition transform_update :: "(jsval \<Rightarrow> jsval option) \<Rightarrow> jsval \<Rightarrow> jsval attempt" where
  \<comment> \<open>\<^verbatim>\<open>if (update.values) update.values.forEach(...)\<close>: a truthy \<^verbatim>\<open>values\<close> that is no
      array has no \<^verbatim>\<open>forEach\<close>, and the call throws\<close>
  "transform_update f update =
     (case get_prop update ''values'' of
        None \<Rightarrow> Throws
      | Some vals \<Rightarrow>
          if truthy vals then
            (case vals of
               JArr vs \<Rightarrow>
                 (case attempt_all (transform_value f) vs of
                    Done vs' \<Rightarrow>
                      (case update of
                         JObj fs \<Rightarrow> Done (JObj (set_prop fs ''values'' (JArr vs')))
                       | _ \<Rightarrow> Done update)
                  | Throws \<Rightarrow> Throws
                  | Outside \<Rightarrow> Outside)
             | _ \<Rightarrow> Throws)
          else Done update)"

definition sendToSignalK :: "jsval \<Rightarrow> rule \<Rightarrow> send_result" where
  "sendToSignalK signalKData r =
     (case get_prop signalKData ''context'' of
        None \<Rightarrow> SendThrew
      | Some c \<Rightarrow>
          if \<not> truthy c then Invalid
          else
            (case get_prop signalKData ''updates'' of
               None \<Rightarrow> SendThrew
             | Some u \<Rightarrow>
                 if \<not> truthy u \<or> \<not> isArray u then Invalid
                 else
                   (case transformValue r of
                      None \<Rightarrow> Sent signalKData
                    | Some f \<Rightarrow>
                        (case (signalKData, u) of
                           (JObj fs, JArr us) \<Rightarrow>
                             (case attempt_all (transform_update f) us of
                                Done us' \<Rightarrow> Sent (JObj (set_prop fs ''updates'' (JArr us')))
                              | Throws \<Rightarrow> SendThrew
                              | Outside \<Rightarrow> SendOutside)
                         | _ \<Rightarrow> SendOutside))))"

section \<open>Message handler\<close>

text \<open>
  \<^verbatim>\<open>handleMQTTMessage(topic, message)\<close> with \<^verbatim>\<open>messageStr = message.toString()\<close>, the
  deduplication map passed in and returned, and the clock read as arguments
  (\<open>now\<close> is \<^verbatim>\<open>Date.now()\<close>).  The outcome says where the handler ended.
\<close>

datatype outcome =
    LoopReturnedFalse
  | NoRuleFound
  | DuplicateSkipped
  | ParseFailed
  | InvalidData
  | SendFailed
  | Delivered jsval
  | OutsideModel

definition parse_and_send ::
  "builtins \<Rightarrow> config \<Rightarrow> rule \<Rightarrow> string \<Rightarrow> string \<Rightarrow> string \<Rightarrow> outcome" where
  \<comment> \<open>the handler after the deduplication block\<close>
  "parse_and_send bi cfg r topic messageStr stamp =
     (let signalKData =
            (if payloadFormat r = ''value-only''
             then parseValueOnlyMessage bi cfg messageStr r topic stamp
             else parseFullSignalKMessage bi cfg messageStr r topic stamp)
      in case signalKData of
           None \<Rightarrow> ParseFailed
         | Some d \<Rightarrow>
             if truthy d then
               (case sendToSignalK d r of
                  Sent d' \<Rightarrow> Delivered d'
                | Invalid \<Rightarrow> InvalidData
                | SendThrew \<Rightarrow> SendFailed
                | SendOutside \<Rightarrow> OutsideModel)
             else ParseFailed)"

definition handleMQTTMessage ::
  "builtins \<Rightarrow> config \<Rightarrow> rule list \<Rightarrow> dedup \<Rightarrow> string \<Rightarrow> string \<Rightarrow> nat \<Rightarrow> string
     \<Rightarrow> outcome \<times> dedup" where
  "handleMQTTMessage bi cfg importRules lastReceivedMessages topic messageStr now stamp =
     (case find_rule cfg importRules topic of
        ReturnedFalse \<Rightarrow> (LoopReturnedFalse, lastReceivedMessages)
      | NoRule \<Rightarrow> (NoRuleFound, lastReceivedMessages)
      | OutsideSearch \<Rightarrow> (OutsideModel, lastReceivedMessages)
      | Found r \<Rightarrow>
          if ignoreDuplicates r then
            (case dedup_step lastReceivedMessages (messageKey topic messageStr) now of
               (True, m) \<Rightarrow> (DuplicateSkipped, m)
             | (False, m) \<Rightarrow> (parse_and_send bi cfg r topic messageStr stamp, m))
          else (parse_and_send bi cfg r topic messageStr stamp, lastReceivedMessages))"

section \<open>Sequences of messages\<close>

text \<open>
  The map is empty when the plugin starts and changes only in the handler.  An event
  is one call of the handler: the built-ins, the configuration and the rules at that
  moment (the rules are replaced through the API between messages), the topic, the
  payload text and the two readings of the clock.  \<open>processed es\<close> is the map after the
  events \<open>es\<close>, handled in order from the start of the plugin.
\<close>

type_synonym event = "builtins \<times> config \<times> rule list \<times> string \<times> string \<times> nat \<times> string"

definition step :: "event \<Rightarrow> dedup \<Rightarrow> dedup" where
  "step e m =
     (case e of (bi, cfg, importRules, topic, messageStr, now, stamp) \<Rightarrow>
        snd (handleMQTTMessage bi cfg importRules m topic messageStr now stamp))"

definition processed :: "event list \<Rightarrow> dedup" where
  "processed es = fold step es []"

definition event_pair :: "event \<Rightarrow> string \<times> string" where
  \<comment> \<open>topic and payload of an event\<close>
  "event_pair e = (case e of (bi, cfg, importRules, topic, messageStr, now, stamp) \<Rightarrow> (topic, messageStr))"

definition event_key :: "event \<Rightarrow> string" where
  \<comment> \<open>the message key of an event\<close>
  "event_key e = (case e of (bi, cfg, importRules, topic, messageStr, now, stamp) \<Rightarrow>
                    messageKey topic messageStr)"

section \<open>Subscriptions\<close>

text \<open>
  \<^verbatim>\<open>subscribeToMQTTTopics\<close>: the topics the plugin subscribes to, in the order in which
  they are added to the set.  For a pattern without self placeholder it adds the
  pattern and, when the pattern holds \<^verbatim>\<open>urn_mrn_imo_mmsi_\<close>, the pattern after
  \<^verbatim>\<open>topic.replace(/urn_mrn_imo_mmsi_/g, 'urn:mrn:imo:mmsi:')\<close>.
\<close>

function replace_all :: "string \<Rightarrow> string \<Rightarrow> string \<Rightarrow> string" where
  \<comment> \<open>\<^verbatim>\<open>s.replace(/pat/g, rep)\<close> for a literal \<open>pat\<close> and a \<open>rep\<close> without dollar sign\<close>
  "replace_all [] pat rep = []"
| "replace_all (c # s) pat rep =
     (if pat \<noteq> [] \<and> startsWith (c # s) pat
      then rep @ replace_all (drop (length pat) (c # s)) pat rep
      else c # replace_all s pat rep)"
  by pat_completeness auto
termination
  by (relation "measure (\<lambda>(s, pat, rep). length s)") auto

definition plain_subscriptions :: "string \<Rightarrow> string list" where
  "plain_subscriptions topic =
     topic # (if str_includes topic ''urn_mrn_imo_mmsi_''
              then [replace_all topic ''urn_mrn_imo_mmsi_'' ''urn:mrn:imo:mmsi:'']
              else [])"

definition self_subscriptions :: "string \<Rightarrow> string \<Rightarrow> string list" where
  "self_subscriptions urn topic =
     subst_self topic urn
     # (if CHR '':'' \<in> set urn
        then [subst_self topic (case urnToMqttFormat (Some urn) of None \<Rightarrow> ''null'' | Some u \<Rightarrow> u)]
        else [])"

definition rule_subscriptions :: "config \<Rightarrow> rule \<Rightarrow> string list" where
  "rule_subscriptions cfg r =
     (let topic = expectedTopic cfg r in
      case selfVesselUrn cfg of
        None \<Rightarrow> plain_subscriptions topic
      | Some urn \<Rightarrow>
          if str_includes topic ''vessels/self/'' \<and> urn \<noteq> [] then self_subscriptions urn topic
          else plain_subscriptions topic)"

definition subscribeToMQTTTopics :: "config \<Rightarrow> rule list \<Rightarrow> string list" where
  "subscribeToMQTTTopics cfg importRules =
     concat (map (rule_subscriptions cfg) (filter enabled importRules))"

section \<open>Notions of the specification, and example data\<close>

text \<open>
  A match segment by segment, as the specification describes the single-level
  wildcard: pattern and topic have the same number of segments, and each segment of
  the pattern is \<^verbatim>\<open>+\<close> or equals the segment of the topic.
\<close>

fun spec_segments_match :: "string list \<Rightarrow> string list \<Rightarrow> bool" where
  "spec_segments_match [] [] = True"
| "spec_segments_match (p # ps) (t # ts) = ((p = ''+'' \<or> p = t) \<and> spec_segments_match ps ts)"
| "spec_segments_match _ _ = False"

definition spec_topic_match :: "string \<Rightarrow> string \<Rightarrow> bool" where
  "spec_topic_match p t = spec_segments_match (split (CHR ''/'') p) (split (CHR ''/'') t)"

text \<open>Rules and configurations for the examples.\<close>

definition example_rule :: "string \<Rightarrow> string \<Rightarrow> bool \<Rightarrow> string option \<Rightarrow> rule" where
  "example_rule n pat en excl =
     \<lparr> rule_id = n, name = n, mqttTopic = pat, signalKContext = [], signalKPath = [],
       sourceLabel = [], enabled = en, payloadFormat = ''full'', ignoreDuplicates = True,
       excludeMMSI = excl, transformValue = None \<rparr>"

definition no_prefix :: "string option \<Rightarrow> config" where
  "no_prefix self = \<lparr> topicPrefix = [], selfVesselUrn = self \<rparr>"

definition parses_to :: "jsval \<Rightarrow> builtins" where
  \<comment> \<open>built-ins for an example whose payload text parses to the given value\<close>
  "parses_to v = \<lparr> json_parse = (\<lambda>s. Some v), to_number = (\<lambda>s. None) \<rparr>"

definition electrical_off :: rule where
  "electrical_off = example_rule ''electrical'' ''vessels/self/electrical/#'' False None"

definition navigation_on :: rule where
  "navigation_on = example_rule ''navigation'' ''vessels/self/navigation/#'' True None"

definition excluding_7 :: rule where
  "excluding_7 = example_rule ''R1'' ''vessels/+/navigation/position'' True (Some ''7'')"

definition excluding_none :: rule where
  "excluding_none = example_rule ''R2'' ''vessels/+/navigation/position'' True None"

definition tank_level :: rule where
  "tank_level = example_rule ''tank'' ''vessels/urn_mrn_imo_mmsi_1/tank_level'' True None"

definition everything :: rule where
  "everything = example_rule ''all'' ''#'' True None"

definition qualifies :: "config \<Rightarrow> string \<Rightarrow> rule \<Rightarrow> bool" where
  \<comment> \<open>the pattern matches and the exclusion list does not hold the topic's MMSI\<close>
  "qualifies cfg topic r =
     (topic_matches (selfVesselUrn cfg) (expectedTopic cfg r) topic = Some True
      \<and> \<not> isMMSIExcluded topic r)"

definition filler :: "nat \<Rightarrow> dedup" where
  \<comment> \<open>the map after \<open>n\<close> messages on topic \<^verbatim>\<open>t\<close> with payloads of \<open>0, 1, \<dots>, n - 1\<close>
      letters, each received at time 0\<close>
  "filler n = map (\<lambda>i. (messageKey ''t'' (replicate i (CHR ''x'')), 0)) [0..<n]"

definition filler_events :: "nat \<Rightarrow> event list" where
  \<comment> \<open>the \<open>n\<close> messages that give \<open>filler n\<close>, under one rule for every topic\<close>
  "filler_events n =
     map (\<lambda>i. (parses_to JNull, no_prefix None, [everything], ''t'', replicate i (CHR ''x''), 0, ''s''))
       [0..<n]"

definition example_parse :: builtins where
  \<comment> \<open>\<^verbatim>\<open>JSON.parse\<close> on the payload texts \<^verbatim>\<open>1\<close> and \<^verbatim>\<open>2\<close>\<close>
  "example_parse =
     \<lparr> json_parse = (\<lambda>s. if s = ''1'' then Some (JNum (Fin 1))
                          else if s = ''2'' then Some (JNum (Fin 2)) else None),
       to_number = (\<lambda>s. None) \<rparr>"

definition empty_context :: jsval where
  \<comment> \<open>an object with a \<^verbatim>\<open>context\<close> field, the empty string, and an \<^verbatim>\<open>updates\<close> array\<close>
  "empty_context = JObj [(''context'', JStr []), (''updates'', JArr [])]"

definition empty_updates :: jsval where
  \<comment> \<open>an object with a context and an empty \<^verbatim>\<open>updates\<close> array\<close>
  "empty_updates = JObj [(''context'', JStr ''vessels.self''), (''updates'', JArr [])]"

definition no_context :: jsval where
  "no_context = JObj [(''updates'', JArr [])]"

definition sample_delta :: jsval where
  "sample_delta =
     delta (JStr ''vessels.urn:mrn:imo:mmsi:368396230'') ''navigation.speedOverGround'' ''gps''
       ''2026-01-01T00:00:00.000Z'' (JNum (Fin 5))"

section \<open>Replacement templates\<close>

text \<open>A replacement text without dollar sign stands for itself.\<close>

lemma expand_template_plain: "CHR ''$'' \<notin> set rep \<Longrightarrow> expand_template rep b m a = rep"
  by (induction rep b m a rule: expand_template.induct) auto

section \<open>Round trip of the codec\<close>

lemma replace_all_char_inverse:
  "replace_all_char d c (replace_all_char c d s) = s \<longleftrightarrow> c = d \<or> d \<notin> set s"
  by (induction s) (auto simp: replace_all_char_def)

lemma spec_shape_nonempty: "spec_shape d i \<Longrightarrow> i \<noteq> []"
  by (auto simp: spec_shape_def)

lemma replace_all_char_Nil [simp]: "replace_all_char c d s = [] \<longleftrightarrow> s = []"
  by (simp add: replace_all_char_def)

text \<open>
  C3 (as amended).  On an identifier of the canonical shape, decoding after encoding
  gives the identifier back exactly when it holds no underscore; on an identifier of
  the transport shape, encoding after decoding gives it back exactly when it holds
  no colon.  An underscore inside the namespace path comes back as a colon.
\<close>

theorem codec_round_trip:
  "(spec_canonical_shape i \<longrightarrow>
      (mqttFormatToUrn (urnToMqttFormat (Some i)) = Some i \<longleftrightarrow> CHR ''_'' \<notin> set i))
   \<and> (spec_transport_shape t \<longrightarrow>
      (urnToMqttFormat (mqttFormatToUrn (Some t)) = Some t \<longleftrightarrow> CHR '':'' \<notin> set t))"
proof (intro conjI impI)
  assume "spec_canonical_shape i"
  then have "i \<noteq> []"
    by (simp add: spec_canonical_shape_def spec_shape_nonempty)
  then show "mqttFormatToUrn (urnToMqttFormat (Some i)) = Some i \<longleftrightarrow> CHR ''_'' \<notin> set i"
    by (simp add: replace_all_char_inverse)
next
  assume "spec_transport_shape t"
  then have "t \<noteq> []"
    by (simp add: spec_transport_shape_def spec_shape_nonempty)
  then show "urnToMqttFormat (mqttFormatToUrn (Some t)) = Some t \<longleftrightarrow> CHR '':'' \<notin> set t"
    by (simp add: replace_all_char_inverse)
qed

theorem codec_round_trip_witness:
  "spec_canonical_shape ''urn:mrn:imo:mmsi:368396230''
   \<and> mqttFormatToUrn (urnToMqttFormat (Some ''urn:mrn:imo:mmsi:368396230''))
       = Some ''urn:mrn:imo:mmsi:368396230''
   \<and> spec_transport_shape ''urn_mrn_imo_mmsi_368396230''
   \<and> urnToMqttFormat (mqttFormatToUrn (Some ''urn_mrn_imo_mmsi_368396230''))
       = Some ''urn_mrn_imo_mmsi_368396230''"
proof -
  have c: "spec_canonical_shape ''urn:mrn:imo:mmsi:368396230''"
    by (simp add: spec_canonical_shape_def spec_shape_def is_digit_def)
  have t: "spec_transport_shape ''urn_mrn_imo_mmsi_368396230''"
    by (simp add: spec_transport_shape_def spec_shape_def is_digit_def)
  have nu: "CHR ''_'' \<notin> set ''urn:mrn:imo:mmsi:368396230''"
    by simp
  have nc: "CHR '':'' \<notin> set ''urn_mrn_imo_mmsi_368396230''"
    by simp
  note rt = codec_round_trip [of "''urn:mrn:imo:mmsi:368396230''" "''urn_mrn_imo_mmsi_368396230''"]
  from rt c have ab: "mqttFormatToUrn (urnToMqttFormat (Some ''urn:mrn:imo:mmsi:368396230''))
       = Some ''urn:mrn:imo:mmsi:368396230'' \<longleftrightarrow> CHR ''_'' \<notin> set ''urn:mrn:imo:mmsi:368396230''"
    by blast
  from ab nu have a: "mqttFormatToUrn (urnToMqttFormat (Some ''urn:mrn:imo:mmsi:368396230''))
       = Some ''urn:mrn:imo:mmsi:368396230''"
    by (rule iffD2)
  from rt t have bb: "urnToMqttFormat (mqttFormatToUrn (Some ''urn_mrn_imo_mmsi_368396230''))
       = Some ''urn_mrn_imo_mmsi_368396230'' \<longleftrightarrow> CHR '':'' \<notin> set ''urn_mrn_imo_mmsi_368396230''"
    by blast
  from bb nc have b: "urnToMqttFormat (mqttFormatToUrn (Some ''urn_mrn_imo_mmsi_368396230''))
       = Some ''urn_mrn_imo_mmsi_368396230''"
    by (rule iffD2)
  from c a t b show ?thesis
    by (intro conjI)
qed

text \<open>
  The round trip as the specification states it, for every identifier of the canonical
  shape, fails where the namespace path holds an underscore.
\<close>

theorem codec_round_trip_counterexample:
  "spec_canonical_shape ''urn:mrn:my_fleet:42''
   \<and> mqttFormatToUrn (urnToMqttFormat (Some ''urn:mrn:my_fleet:42'')) = Some ''urn:mrn:my:fleet:42''
   \<and> mqttFormatToUrn (urnToMqttFormat (Some ''urn:mrn:my_fleet:42'')) \<noteq> Some ''urn:mrn:my_fleet:42''"
  by (simp add: spec_canonical_shape_def spec_shape_def is_digit_def replace_all_char_def)

section \<open>The deduplication map: facts about its operations\<close>

lemma map_set_absent: "\<not> map_has m k \<Longrightarrow> map_set m k v = m @ [(k, v)]"
  by (induction m) (auto simp: map_has_def)

lemma map_has_map_set: "map_has (map_set m k v) k' \<longleftrightarrow> k' = k \<or> map_has m k'"
  by (induction m) (auto simp: map_has_def)

lemma map_has_map_delete: "map_has (map_delete m k) k' \<longleftrightarrow> k' \<noteq> k \<and> map_has m k'"
  by (auto simp: map_has_def map_delete_def)

lemma map_delete_absent: "k \<notin> fst ` set m \<Longrightarrow> map_delete m k = m"
  by (induction m) (auto simp: map_delete_def)

lemma map_delete_head: "map_delete (x # m) (fst x) = map_delete m (fst x)"
  by (simp add: map_delete_def)

lemma fold_delete_prefix:
  "distinct (map fst (xs @ ys)) \<Longrightarrow>
   fold (\<lambda>e m'. map_delete m' (fst e)) xs (xs @ ys) = ys"
proof (induction xs)
  case Nil
  then show ?case by simp
next
  case (Cons x xs)
  have "fst x \<notin> fst ` set (xs @ ys)"
    using Cons.prems by auto
  then have "map_delete (x # xs @ ys) (fst x) = xs @ ys"
    by (simp add: map_delete_absent map_delete_head)
  with Cons show ?case by simp
qed

lemma cleanup_drop:
  assumes "distinct (map fst m)" and "1000 < length m"
  shows "cleanup m = drop 500 m"
proof -
  have "fold (\<lambda>e m'. map_delete m' (fst e)) (take 500 m) (take 500 m @ drop 500 m) = drop 500 m"
    by (rule fold_delete_prefix) (simp add: assms)
  with assms show ?thesis by (simp add: cleanup_def)
qed

lemma cleanup_small: "length m \<le> 1000 \<Longrightarrow> cleanup m = m"
  by (simp add: cleanup_def)

lemma map_has_fold_delete:
  "map_has (fold (\<lambda>e m'. map_delete m' (fst e)) es m) k \<Longrightarrow> map_has m k"
proof (induction es arbitrary: m)
  case Nil
  then show ?case by simp
next
  case (Cons e es)
  then have "map_has (map_delete m (fst e)) k" by simp
  then show ?case by (simp add: map_has_map_delete)
qed

lemma map_has_cleanup: "map_has (cleanup m) k \<Longrightarrow> map_has m k"
  by (auto simp: cleanup_def dest: map_has_fold_delete split: if_splits)

lemma distinct_map_delete: "distinct (map fst m) \<Longrightarrow> distinct (map fst (map_delete m k))"
  by (simp add: map_delete_def distinct_map_filter)

lemma distinct_fold_delete:
  "distinct (map fst m) \<Longrightarrow> distinct (map fst (fold (\<lambda>e m'. map_delete m' (fst e)) es m))"
  by (induction es arbitrary: m) (auto simp: distinct_map_delete)

lemma distinct_cleanup: "distinct (map fst m) \<Longrightarrow> distinct (map fst (cleanup m))"
  by (simp add: cleanup_def distinct_fold_delete)

lemma map_set_present: "map_has m k \<Longrightarrow> map fst (map_set m k v) = map fst m"
  by (induction m) (auto simp: map_has_def)

lemma distinct_map_set: "distinct (map fst m) \<Longrightarrow> distinct (map fst (map_set m k v))"
  by (cases "map_has m k") (auto simp: map_set_absent map_set_present map_has_def)

lemma dedup_step_invariant:
  assumes "length m \<le> 1000" and "distinct (map fst m)"
  shows "length (snd (dedup_step m k now)) \<le> 1000 \<and> distinct (map fst (snd (dedup_step m k now)))"
proof (cases "map_has m k")
  case True
  with assms show ?thesis by (simp add: dedup_step_def)
next
  case False
  let ?m' = "map_set m k now"
  have d: "distinct (map fst ?m')" using assms(2) by (rule distinct_map_set)
  have l: "length ?m' = Suc (length m)" using False by (simp add: map_set_absent)
  have "length (cleanup ?m') \<le> 1000"
  proof (cases "1000 < length ?m'")
    case True
    with d have "cleanup ?m' = drop 500 ?m'" by (simp add: cleanup_drop)
    with l assms(1) show ?thesis by simp
  next
    case False
    then show ?thesis by (simp add: cleanup_small)
  qed
  with d False show ?thesis by (simp add: dedup_step_def distinct_cleanup)
qed

lemma handler_state:
  "snd (handleMQTTMessage bi cfg rs m topic msg now stamp) = m
   \<or> snd (handleMQTTMessage bi cfg rs m topic msg now stamp)
       = snd (dedup_step m (messageKey topic msg) now)"
  by (auto simp: handleMQTTMessage_def split: search.splits prod.splits bool.splits)

lemma step_invariant:
  assumes "length m \<le> 1000 \<and> distinct (map fst m)"
  shows "length (step e m) \<le> 1000 \<and> distinct (map fst (step e m))"
proof -
  obtain bi cfg importRules topic messageStr now stamp
    where e: "e = (bi, cfg, importRules, topic, messageStr, now, stamp)"
    by (cases e) auto
  have "step e m = m \<or> step e m = snd (dedup_step m (messageKey topic messageStr) now)"
    using handler_state [of bi cfg importRules m topic messageStr now stamp]
    by (simp add: step_def e)
  with assms dedup_step_invariant [of m "messageKey topic messageStr" now]
  show ?thesis by auto
qed

lemma fold_step_invariant:
  "length m \<le> 1000 \<and> distinct (map fst m) \<Longrightarrow>
   length (fold step es m) \<le> 1000 \<and> distinct (map fst (fold step es m))"
proof (induction es arbitrary: m)
  case Nil
  then show ?case by simp
next
  case (Cons e es)
  from Cons.prems have "length (step e m) \<le> 1000 \<and> distinct (map fst (step e m))"
    by (rule step_invariant)
  then show ?case
    using Cons.IH by simp
qed

lemma processed_invariant:
  "length (processed es) \<le> 1000 \<and> distinct (map fst (processed es))"
  unfolding processed_def by (rule fold_step_invariant) simp

section \<open>The deduplication map: bound and eviction\<close>

lemma find_everything:
  "find_rule (no_prefix self) [everything] topic = Found everything"
  by (cases self)
     (simp_all add: everything_def example_rule_def topic_matches_def matches_hash_def replace_first_def
      plain_hash_def expectedTopic_def isMMSIExcluded_def parseMMSIExclusionList_def no_prefix_def)

lemma filler_Suc:
  "filler (Suc n) = filler n @ [(messageKey ''t'' (replicate n (CHR ''x'')), 0)]"
  by (simp add: filler_def)

lemma length_filler [simp]: "length (filler n) = n"
  by (simp add: filler_def)

lemma filler_fresh: "n \<le> k \<Longrightarrow> \<not> map_has (filler n) (messageKey ''t'' (replicate k (CHR ''x'')))"
  by (auto simp: filler_def map_has_def messageKey_def)

lemma filler_step:
  assumes "n < 1000"
  shows "handleMQTTMessage bi (no_prefix None) [everything] (filler n) ''t''
           (replicate n (CHR ''x'')) 0 stamp
         = (parse_and_send bi (no_prefix None) everything ''t'' (replicate n (CHR ''x'')) stamp,
            filler (Suc n))"
proof -
  have "\<not> map_has (filler n) (messageKey ''t'' (replicate n (CHR ''x'')))"
    by (rule filler_fresh) simp
  moreover have "ignoreDuplicates everything"
    by (simp add: everything_def example_rule_def)
  moreover have "cleanup (filler (Suc n)) = filler (Suc n)"
    using assms by (simp add: cleanup_small)
  ultimately show ?thesis
    by (simp add: handleMQTTMessage_def find_everything dedup_step_def map_set_absent filler_Suc
        del: find_rule.simps)
qed

lemma processed_filler: "n \<le> 1000 \<Longrightarrow> processed (filler_events n) = filler n"
proof (induction n)
  case 0
  show ?case by (simp add: filler_def filler_events_def processed_def)
next
  case (Suc n)
  then have ih: "processed (filler_events n) = filler n" and n: "n < 1000" by simp_all
  have "processed (filler_events (Suc n))
        = step (parses_to JNull, no_prefix None, [everything], ''t'', replicate n (CHR ''x''), 0, ''s'')
            (processed (filler_events n))"
    by (simp add: processed_def filler_events_def)
  also have "\<dots> = filler (Suc n)"
    using filler_step [OF n, of "parses_to JNull" "''s''"] by (simp add: step_def ih)
  finally show ?case .
qed

lemma parse_and_send_not_skipped: "parse_and_send bi cfg r topic msg stamp \<noteq> DuplicateSkipped"
  by (simp add: parse_and_send_def Let_def split: option.splits send_result.splits)

text \<open>
  C2.  After every sequence of messages the deduplication map holds at most 1000
  entries.  When the next message is matched by a rule that ignores duplicates and its
  key is not in the map, the key is appended as the newest entry, which makes at
  most 1001 entries; if that is more than 1000, the handler leaves the map without
  its 500 oldest entries, the later ones in their order, and otherwise leaves it as it
  is after the insertion.
\<close>

theorem dedup_map_bounded:
  "length (processed es) \<le> 1000
   \<and> (find_rule cfg importRules topic = Found r \<and> ignoreDuplicates r
        \<and> \<not> map_has (processed es) (messageKey topic messageStr)
      \<longrightarrow> map_set (processed es) (messageKey topic messageStr) now
            = processed es @ [(messageKey topic messageStr, now)]
        \<and> length (map_set (processed es) (messageKey topic messageStr) now) \<le> 1001
        \<and> snd (handleMQTTMessage bi cfg importRules (processed es) topic messageStr now stamp)
            = (if 1000 < length (processed es @ [(messageKey topic messageStr, now)])
               then drop 500 (processed es @ [(messageKey topic messageStr, now)])
               else processed es @ [(messageKey topic messageStr, now)]))"
proof (intro conjI impI)
  let ?m = "processed es"
  let ?k = "messageKey topic messageStr"
  have inv: "length ?m \<le> 1000" "distinct (map fst ?m)"
    by (simp_all add: processed_invariant)
  then show "length ?m \<le> 1000" by simp
  assume h: "find_rule cfg importRules topic = Found r \<and> ignoreDuplicates r \<and> \<not> map_has ?m ?k"
  then show app: "map_set ?m ?k now = ?m @ [(?k, now)]"
    by (simp add: map_set_absent)
  with inv show "length (map_set ?m ?k now) \<le> 1001" by simp
  have d: "distinct (map fst (?m @ [(?k, now)]))"
    using distinct_map_set [OF inv(2), of ?k now] app by simp
  have "cleanup (?m @ [(?k, now)])
        = (if 1000 < length (?m @ [(?k, now)]) then drop 500 (?m @ [(?k, now)]) else ?m @ [(?k, now)])"
    using d by (auto simp: cleanup_drop cleanup_small simp del: drop_append)
  with h app show "snd (handleMQTTMessage bi cfg importRules ?m topic messageStr now stamp)
              = (if 1000 < length (?m @ [(?k, now)]) then drop 500 (?m @ [(?k, now)])
                 else ?m @ [(?k, now)])"
    by (simp add: handleMQTTMessage_def dedup_step_def)
qed

theorem dedup_map_bounded_witness:
  "length (processed (filler_events 1000)) = 1000
   \<and> length (map_set (processed (filler_events 1000))
               (messageKey ''t'' (replicate 1000 (CHR ''x''))) 7) \<le> 1001
   \<and> snd (handleMQTTMessage (parses_to JNull) (no_prefix None) [everything]
            (processed (filler_events 1000)) ''t'' (replicate 1000 (CHR ''x'')) 7 ''s'')
       = drop 500 (processed (filler_events 1000) @ [(messageKey ''t'' (replicate 1000 (CHR ''x'')), 7)])
   \<and> length (snd (handleMQTTMessage (parses_to JNull) (no_prefix None) [everything]
            (processed (filler_events 1000)) ''t'' (replicate 1000 (CHR ''x'')) 7 ''s'')) = 501"
proof -
  let ?m = "processed (filler_events 1000)"
  let ?k = "messageKey ''t'' (replicate 1000 (CHR ''x''))"
  have m: "?m = filler 1000"
    by (rule processed_filler) simp
  have len: "length ?m = 1000"
    by (simp add: m)
  have h: "find_rule (no_prefix None) [everything] ''t'' = Found everything
           \<and> ignoreDuplicates everything \<and> \<not> map_has ?m ?k"
  proof (intro conjI)
    show "find_rule (no_prefix None) [everything] ''t'' = Found everything"
      by (rule find_everything)
    show "ignoreDuplicates everything"
      by (simp add: everything_def example_rule_def)
    show "\<not> map_has ?m ?k"
      unfolding m by (rule filler_fresh) simp
  qed
  have big: "1000 < length (?m @ [(?k, 7)])"
    by (simp add: len)
  from dedup_map_bounded [of "filler_events 1000" "no_prefix None" "[everything]" "''t''"
      everything "replicate 1000 (CHR ''x'')" 7 "parses_to JNull" "''s''"] h
  have "length (map_set ?m ?k 7) \<le> 1001
     \<and> snd (handleMQTTMessage (parses_to JNull) (no_prefix None) [everything] ?m ''t''
              (replicate 1000 (CHR ''x'')) 7 ''s'')
         = (if 1000 < length (?m @ [(?k, 7)]) then drop 500 (?m @ [(?k, 7)]) else ?m @ [(?k, 7)])"
    by blast
  with big have "length (map_set ?m ?k 7) \<le> 1001
     \<and> snd (handleMQTTMessage (parses_to JNull) (no_prefix None) [everything] ?m ''t''
              (replicate 1000 (CHR ''x'')) 7 ''s'') = drop 500 (?m @ [(?k, 7)])"
    by (simp only: if_True)
  with len show ?thesis
    by simp
qed

section \<open>Duplicate suppression\<close>

lemma messageKey_inject: "messageKey topic a = messageKey topic b \<longleftrightarrow> a = b"
  by (simp add: messageKey_def)

lemma map_of_absent_append: "\<not> map_has m k \<Longrightarrow> map_of (m @ [(k, v)]) k = Some v"
  by (induction m) (auto simp: map_has_def)

lemma map_of_map_delete: "k' \<noteq> k \<Longrightarrow> map_of (map_delete m k') k = map_of m k"
  by (induction m) (auto simp: map_delete_def)

lemma map_of_fold_delete:
  "k \<notin> fst ` set es \<Longrightarrow> map_of (fold (\<lambda>e m'. map_delete m' (fst e)) es m) k = map_of m k"
  by (induction es arbitrary: m) (auto simp: map_of_map_delete)

lemma map_of_cleanup_new:
  assumes "\<not> map_has m k"
  shows "map_of (cleanup (m @ [(k, v)])) k = Some v"
proof (cases "1000 < length (m @ [(k, v)])")
  case True
  then have "take 500 (m @ [(k, v)]) = take 500 m" by simp
  moreover have "k \<notin> fst ` set (take 500 m)"
    using assms by (auto simp: map_has_def dest: in_set_takeD)
  ultimately have "map_of (cleanup (m @ [(k, v)])) k = map_of (m @ [(k, v)]) k"
    using True by (simp add: cleanup_def map_of_fold_delete Let_def del: take_append)
  also have "\<dots> = Some v"
    using assms by (rule map_of_absent_append)
  finally show ?thesis .
next
  case False
  then have "cleanup (m @ [(k, v)]) = m @ [(k, v)]"
    by (simp add: cleanup_def)
  then show ?thesis
    using map_of_absent_append [OF assms, of v] by (simp only:)
qed

lemma map_has_dedup_step:
  "map_has (snd (dedup_step m k now)) k' \<Longrightarrow> k' = k \<or> map_has m k'"
  by (auto simp: dedup_step_def map_has_map_set dest: map_has_cleanup split: if_splits)

text \<open>A key in the map is the key of a message handled before.\<close>

lemma map_has_step: "map_has (step e m) k \<Longrightarrow> k = event_key e \<or> map_has m k"
proof -
  obtain bi cfg importRules topic messageStr now stamp
    where e: "e = (bi, cfg, importRules, topic, messageStr, now, stamp)"
    by (cases e) auto
  assume h: "map_has (step e m) k"
  have "step e m = m \<or> step e m = snd (dedup_step m (messageKey topic messageStr) now)"
    using handler_state [of bi cfg importRules m topic messageStr now stamp]
    by (simp add: step_def e)
  with h map_has_dedup_step [of m "messageKey topic messageStr" now k]
  show ?thesis
    by (auto simp: event_key_def e)
qed

lemma map_has_fold_step:
  "map_has (fold step es m) k \<Longrightarrow> map_has m k \<or> k \<in> set (map event_key es)"
proof (induction es arbitrary: m)
  case Nil
  then show ?case by simp
next
  case (Cons e es)
  then have "map_has (step e m) k \<or> k \<in> set (map event_key es)"
    by simp
  then show ?case
    using map_has_step [of e m k] by auto
qed

lemma cached_key_was_received:
  "map_has (processed es) k \<Longrightarrow> k \<in> set (map event_key es)"
  using map_has_fold_step [of es "[]" k] by (simp add: processed_def map_has_def)

text \<open>
  C7 (as amended).  Let the rule search find a rule for the topic.  If the rule ignores duplicates
  and no entry is cached under the key of topic and payload, the handler goes on to
  interpret the payload (it does not end as a duplicate) and the key is then cached
  with the current time.  If the rule ignores duplicates and the key is cached, the
  handler ends as a duplicate and the map, time stamps included, is unchanged.  After
  a message, a message on the same topic with another payload whose key was not
  cached is not suppressed.  If the rule does not ignore duplicates, the message is
  interpreted and the map is unchanged.  Interpreting never ends as a duplicate.
  In particular the first message with a given key, after any sequence of messages
  with other keys, is not suppressed.
\<close>

theorem duplicate_suppression:
  assumes "find_rule cfg importRules topic = Found r"
  shows "(ignoreDuplicates r \<and> \<not> map_has m (messageKey topic messageStr) \<longrightarrow>
            handleMQTTMessage bi cfg importRules m topic messageStr now stamp
              = (parse_and_send bi cfg r topic messageStr stamp,
                 cleanup (m @ [(messageKey topic messageStr, now)]))
            \<and> map_of (cleanup (m @ [(messageKey topic messageStr, now)]))
                 (messageKey topic messageStr) = Some now)
       \<and> (ignoreDuplicates r \<and> map_has m (messageKey topic messageStr) \<longrightarrow>
            handleMQTTMessage bi cfg importRules m topic messageStr now stamp
              = (DuplicateSkipped, m))
       \<and> (ignoreDuplicates r \<and> other \<noteq> messageStr \<and> \<not> map_has m (messageKey topic other) \<longrightarrow>
            fst (handleMQTTMessage bi cfg importRules
                   (snd (handleMQTTMessage bi cfg importRules m topic messageStr now stamp))
                   topic other now' stamp')
              = parse_and_send bi cfg r topic other stamp')
       \<and> (\<not> ignoreDuplicates r \<longrightarrow>
            handleMQTTMessage bi cfg importRules m topic messageStr now stamp
              = (parse_and_send bi cfg r topic messageStr stamp, m))
       \<and> parse_and_send bi cfg r topic messageStr stamp \<noteq> DuplicateSkipped
       \<and> (ignoreDuplicates r \<and> messageKey topic messageStr \<notin> set (map event_key es) \<longrightarrow>
            handleMQTTMessage bi cfg importRules (processed es) topic messageStr now stamp
              = (parse_and_send bi cfg r topic messageStr stamp,
                 cleanup (processed es @ [(messageKey topic messageStr, now)])))"
proof (intro conjI impI)
  show "parse_and_send bi cfg r topic messageStr stamp \<noteq> DuplicateSkipped"
    by (rule parse_and_send_not_skipped)
next
  assume h: "ignoreDuplicates r \<and> messageKey topic messageStr \<notin> set (map event_key es)"
  then have "\<not> map_has (processed es) (messageKey topic messageStr)"
    using cached_key_was_received [of es "messageKey topic messageStr"] by blast
  with h assms show "handleMQTTMessage bi cfg importRules (processed es) topic messageStr now stamp
              = (parse_and_send bi cfg r topic messageStr stamp,
                 cleanup (processed es @ [(messageKey topic messageStr, now)]))"
    by (simp add: handleMQTTMessage_def dedup_step_def map_set_absent)
next
  assume "\<not> ignoreDuplicates r"
  with assms show "handleMQTTMessage bi cfg importRules m topic messageStr now stamp
              = (parse_and_send bi cfg r topic messageStr stamp, m)"
    by (simp add: handleMQTTMessage_def)
next
  assume "ignoreDuplicates r \<and> map_has m (messageKey topic messageStr)"
  with assms show "handleMQTTMessage bi cfg importRules m topic messageStr now stamp
              = (DuplicateSkipped, m)"
    by (simp add: handleMQTTMessage_def dedup_step_def)
next
  assume h: "ignoreDuplicates r \<and> \<not> map_has m (messageKey topic messageStr)"
  with assms show "handleMQTTMessage bi cfg importRules m topic messageStr now stamp
              = (parse_and_send bi cfg r topic messageStr stamp,
                 cleanup (m @ [(messageKey topic messageStr, now)]))"
    by (simp add: handleMQTTMessage_def dedup_step_def map_set_absent)
  from h show "map_of (cleanup (m @ [(messageKey topic messageStr, now)]))
                 (messageKey topic messageStr) = Some now"
    by (simp add: map_of_cleanup_new)
next
  assume h: "ignoreDuplicates r \<and> other \<noteq> messageStr \<and> \<not> map_has m (messageKey topic other)"
  let ?m' = "snd (handleMQTTMessage bi cfg importRules m topic messageStr now stamp)"
  have "?m' = m \<or> ?m' = snd (dedup_step m (messageKey topic messageStr) now)"
    by (rule handler_state)
  moreover have "\<not> map_has (snd (dedup_step m (messageKey topic messageStr) now))
                      (messageKey topic other)"
    using h map_has_dedup_step [of m "messageKey topic messageStr" now "messageKey topic other"]
    by (auto simp: messageKey_inject)
  ultimately have "\<not> map_has ?m' (messageKey topic other)"
    using h by auto
  with h assms show "fst (handleMQTTMessage bi cfg importRules ?m' topic other now' stamp')
              = parse_and_send bi cfg r topic other stamp'"
    by (simp add: handleMQTTMessage_def dedup_step_def)
qed

theorem duplicate_suppression_witness:
  "handleMQTTMessage example_parse (no_prefix None) [everything] [] ''a/b'' ''1'' 5 ''s''
     = (Delivered (delta (JStr ''vessels.self'') ''a.b'' [] ''s'' (JNum (Fin 1))), [(''a/b:1'', 5)])
   \<and> handleMQTTMessage example_parse (no_prefix None) [everything] [(''a/b:1'', 5)] ''a/b'' ''1'' 9 ''s''
     = (DuplicateSkipped, [(''a/b:1'', 5)])
   \<and> fst (handleMQTTMessage example_parse (no_prefix None) [everything] [(''a/b:1'', 5)] ''a/b'' ''2'' 9 ''s'')
     = Delivered (delta (JStr ''vessels.self'') ''a.b'' [] ''s'' (JNum (Fin 2)))"
proof -
  have f: "find_rule (no_prefix None) [everything] ''a/b'' = Found everything"
    by (rule find_everything)
  have i: "ignoreDuplicates everything"
    by (simp add: everything_def example_rule_def)
  have k: "messageKey ''a/b'' ''1'' = ''a/b:1''"
    by (simp add: messageKey_def)
  have a1: "\<not> map_has [] (messageKey ''a/b'' ''1'')"
    by (simp add: map_has_def)
  have a2: "map_has [(''a/b:1'', 5)] (messageKey ''a/b'' ''1'')"
    by (simp add: map_has_def messageKey_def)
  have a3: "''2'' \<noteq> ''1'' \<and> \<not> map_has [] (messageKey ''a/b'' ''2'')"
    by (simp add: map_has_def)
  have c: "cleanup ([] @ [(messageKey ''a/b'' ''1'', 5)]) = [(''a/b:1'', 5::nat)]"
    by (simp add: cleanup_def messageKey_def)
  have p1: "parse_and_send example_parse (no_prefix None) everything ''a/b'' ''1'' ''s''
              = Delivered (delta (JStr ''vessels.self'') ''a.b'' [] ''s'' (JNum (Fin 1)))"
    by (simp add: parse_and_send_def parseFullSignalKMessage_def example_parse_def
        everything_def example_rule_def no_prefix_def extractContextFromTopic_def
        extractPathFromTopic_def rule_path_def cleanTopic_def replace_all_char_def
        sendToSignalK_def delta_def own_prop_def)
  have p2: "parse_and_send example_parse (no_prefix None) everything ''a/b'' ''2'' ''s''
              = Delivered (delta (JStr ''vessels.self'') ''a.b'' [] ''s'' (JNum (Fin 2)))"
    by (simp add: parse_and_send_def parseFullSignalKMessage_def example_parse_def
        everything_def example_rule_def no_prefix_def extractContextFromTopic_def
        extractPathFromTopic_def rule_path_def cleanTopic_def replace_all_char_def
        sendToSignalK_def delta_def own_prop_def)
  note t0 = duplicate_suppression [OF f, of "[]" "''1''" example_parse 5 "''s''" "''2''" 9 "''s''"]
  note t1 = duplicate_suppression [OF f, of "[(''a/b:1'', 5)]" "''1''" example_parse 9 "''s''"]
  from t0 i a1 have "handleMQTTMessage example_parse (no_prefix None) [everything] [] ''a/b'' ''1'' 5 ''s''
     = (parse_and_send example_parse (no_prefix None) everything ''a/b'' ''1'' ''s'',
        cleanup ([] @ [(messageKey ''a/b'' ''1'', 5)]))"
    by blast
  then have first: "handleMQTTMessage example_parse (no_prefix None) [everything] [] ''a/b'' ''1'' 5 ''s''
     = (Delivered (delta (JStr ''vessels.self'') ''a.b'' [] ''s'' (JNum (Fin 1))), [(''a/b:1'', 5)])"
    by (simp only: p1 c)
  from t1 i a2 have again: "handleMQTTMessage example_parse (no_prefix None) [everything]
       [(''a/b:1'', 5)] ''a/b'' ''1'' 9 ''s'' = (DuplicateSkipped, [(''a/b:1'', 5)])"
    by blast
  from t0 i a3 have "fst (handleMQTTMessage example_parse (no_prefix None) [everything]
       (snd (handleMQTTMessage example_parse (no_prefix None) [everything] [] ''a/b'' ''1'' 5 ''s''))
       ''a/b'' ''2'' 9 ''s'')
     = parse_and_send example_parse (no_prefix None) everything ''a/b'' ''2'' ''s''"
    by blast
  then have other: "fst (handleMQTTMessage example_parse (no_prefix None) [everything]
       [(''a/b:1'', 5)] ''a/b'' ''2'' 9 ''s'')
     = Delivered (delta (JStr ''vessels.self'') ''a.b'' [] ''s'' (JNum (Fin 2)))"
    by (simp only: first p2 snd_conv)
  from first again other show ?thesis
    by (intro conjI)
qed

text \<open>
  The claim as the specification states it, for the first occurrence of every pair of
  topic and payload, fails where two pairs have one key: after the message with topic
  \<^verbatim>\<open>tanks/1:level\<close> and payload \<^verbatim>\<open>7\<close>, the pair of topic \<^verbatim>\<open>tanks/1\<close> and payload \<^verbatim>\<open>level:7\<close>
  has not occurred, and its first message is skipped as a duplicate and not recorded.
\<close>

theorem duplicate_suppression_counterexample:
  "(''tanks/1'', ''level:7'')
      \<notin> set (map event_pair
          [(parses_to (JNum (Fin 7)), no_prefix None, [everything], ''tanks/1:level'', ''7'', 5, ''s'')])
   \<and> find_rule (no_prefix None) [everything] ''tanks/1'' = Found everything
   \<and> ignoreDuplicates everything
   \<and> processed [(parses_to (JNum (Fin 7)), no_prefix None, [everything], ''tanks/1:level'', ''7'', 5, ''s'')]
       = [(''tanks/1:level:7'', 5)]
   \<and> handleMQTTMessage (parses_to (JNum (Fin 7))) (no_prefix None) [everything]
         (processed [(parses_to (JNum (Fin 7)), no_prefix None, [everything], ''tanks/1:level'', ''7'', 5, ''s'')])
         ''tanks/1'' ''level:7'' 9 ''s''
       = (DuplicateSkipped, [(''tanks/1:level:7'', 5)])"
  by (simp add: event_pair_def processed_def step_def messageKey_def handleMQTTMessage_def
      everything_def example_rule_def no_prefix_def topic_matches_def matches_hash_def
      replace_first_def plain_hash_def expectedTopic_def isMMSIExcluded_def
      parseMMSIExclusionList_def dedup_step_def map_has_def cleanup_def)

text \<open>
  C10.  The pairs (topic \<^verbatim>\<open>a/b:1\<close>, payload \<^verbatim>\<open>2\<close>) and (topic \<^verbatim>\<open>a/b\<close>, payload \<^verbatim>\<open>1:2\<close>) differ
  and have the same key \<^verbatim>\<open>a/b:1:2\<close>; under a rule that matches both topics and ignores
  duplicates, the second message, received after the first, is skipped as a duplicate.
\<close>

theorem key_collision:
  "(''a/b:1'', ''2'') \<noteq> (''a/b'', ''1:2'')
   \<and> messageKey ''a/b:1'' ''2'' = messageKey ''a/b'' ''1:2''
   \<and> fst (handleMQTTMessage bi (no_prefix None) [everything]
         (snd (handleMQTTMessage bi (no_prefix None) [everything] [] ''a/b:1'' ''2'' now1 stamp1))
         ''a/b'' ''1:2'' now2 stamp2) = DuplicateSkipped"
  by (simp add: messageKey_def handleMQTTMessage_def everything_def example_rule_def no_prefix_def
      topic_matches_def matches_hash_def replace_first_def plain_hash_def expectedTopic_def isMMSIExcluded_def
      parseMMSIExclusionList_def dedup_step_def map_has_def cleanup_def)

section \<open>Rule search\<close>

text \<open>
  When no rule of the list is disabled, and every pattern is inside the model of the
  matcher, the search returns the first rule that qualifies.
\<close>

lemma find_rule_all_enabled:
  "list_all enabled rs \<Longrightarrow>
   list_all (\<lambda>r. topic_matches (selfVesselUrn cfg) (expectedTopic cfg r) topic \<noteq> None) rs \<Longrightarrow>
   find_rule cfg rs topic
     = (case find (qualifies cfg topic) rs of None \<Rightarrow> NoRule | Some r \<Rightarrow> Found r)"
  by (induction rs) (auto simp: qualifies_def split: option.splits)

text \<open>
  A disabled rule that stands before the first qualifying rule ends the search, and
  with it the handler, whatever follows it.
\<close>

lemma find_rule_stops_at_disabled:
  "list_all enabled rs \<Longrightarrow>
   list_all (\<lambda>r. topic_matches (selfVesselUrn cfg) (expectedTopic cfg r) topic \<noteq> None) rs \<Longrightarrow>
   find (qualifies cfg topic) rs = None \<Longrightarrow>
   \<not> enabled r \<Longrightarrow>
   find_rule cfg (rs @ r # rest) topic = ReturnedFalse"
  by (induction rs) (auto simp: qualifies_def split: option.splits)

lemma plus_pattern:
  "RegExp (plus_to_class ''vessels/+/navigation/position'') =
     Some (map Lit ''vessels/'' @ NotSlashPlus # map Lit ''/navigation/position'')"
  by (simp add: plus_to_class_def re_syntax_char_def)

text \<open>
  The example of the specification: of two rules with the same pattern, the first
  excluding MMSI 7, a topic of vessel 7 is given to the second rule and a topic of
  vessel 8 to the first.
\<close>

lemma exclusion_example:
  "find_rule (no_prefix None) [excluding_7, excluding_none]
      ''vessels/urn_mrn_imo_mmsi_7/navigation/position'' = Found excluding_none
   \<and> find_rule (no_prefix None) [excluding_7, excluding_none]
      ''vessels/urn_mrn_imo_mmsi_8/navigation/position'' = Found excluding_7"
  by (simp add: excluding_7_def excluding_none_def example_rule_def no_prefix_def
      topic_matches_def matches_plus_def plain_plus_def expectedTopic_def isMMSIExcluded_def
      parseMMSIExclusionList_def underscore_to_colon_def replace_all_char_def
      extractMMSIFromUrn_def mmsi_here_def eat_lit_def eat_delims_def eat_digits_def
      is_delim_def is_digit_def trim_def is_space_def plus_pattern)

text \<open>
  C1.  The claim, that a disabled rule is skipped and the scan goes on, does not hold
  of the loop.  With a disabled rule for \<^verbatim>\<open>vessels/self/electrical/#\<close> stored before an
  enabled rule for \<^verbatim>\<open>vessels/self/navigation/#\<close>, the search for topic
  \<^verbatim>\<open>vessels/self/navigation/position\<close> ends at the disabled rule with \<^verbatim>\<open>return false\<close>
  and the handler drops the message; the enabled rule alone is found, and the search
  of the earlier revision, from which the statement was taken over, finds it behind the
  disabled rule.
\<close>

theorem disabled_rule_ends_search:
  "find_rule (no_prefix None) [electrical_off, navigation_on] ''vessels/self/navigation/position''
     = ReturnedFalse
   \<and> handleMQTTMessage bi (no_prefix None) [electrical_off, navigation_on] m
        ''vessels/self/navigation/position'' messageStr now stamp = (LoopReturnedFalse, m)
   \<and> find_rule (no_prefix None) [navigation_on] ''vessels/self/navigation/position''
     = Found navigation_on
   \<and> find_rule_v1 (no_prefix None) [electrical_off, navigation_on] ''vessels/self/navigation/position''
     = Found navigation_on"
  by (simp add: handleMQTTMessage_def electrical_off_def navigation_on_def example_rule_def
      no_prefix_def topic_matches_def matches_hash_def replace_first_def plain_hash_def expectedTopic_def
      isMMSIExcluded_def parseMMSIExclusionList_def topic_matches_v1_def)

section \<open>Topic matcher\<close>

lemma startsWith_single: "startsWith s [c] \<longleftrightarrow> (\<exists>r. s = c # r)"
  by (cases s) auto

lemma str_includes_single: "str_includes s [c] \<longleftrightarrow> c \<in> set s"
  by (induction s) (auto simp: startsWith_single)

text \<open>
  What the branch without wildcard computes: equality with the pattern, or with the
  pattern after every underscore is replaced by a colon.
\<close>

lemma matches_without_wildcard:
  assumes "CHR ''+'' \<notin> set p" and "CHR ''#'' \<notin> set p"
    and "\<not> str_includes p ''vessels/self/''"
  shows "topic_matches self p t = Some (t = p \<or> t = underscore_to_colon p)"
  using assms
  by (simp add: topic_matches_def matches_exact_def plain_exact_def str_includes_single
      split: option.splits)

text \<open>
  C5.  The claim, that a pattern without wildcard accepts the topic that equals it
  with its transport-form identifiers rewritten to canonical form, and no other
  topic but itself, does not hold of the matcher.  For the rule pattern
  \<^verbatim>\<open>vessels/urn_mrn_imo_mmsi_1/tank_level\<close> the plugin subscribes to the pattern and to
  \<^verbatim>\<open>vessels/urn:mrn:imo:mmsi:1/tank_level\<close>, the pattern with its identifier rewritten;
  the matcher rejects that second topic, so the handler finds no rule for a message
  on it, and accepts \<^verbatim>\<open>vessels/urn:mrn:imo:mmsi:1/tank:level\<close>, where the underscore of
  the path is rewritten too.
\<close>

theorem matcher_rejects_subscribed_topic:
  "CHR ''+'' \<notin> set ''vessels/urn_mrn_imo_mmsi_1/tank_level''
   \<and> CHR ''#'' \<notin> set ''vessels/urn_mrn_imo_mmsi_1/tank_level''
   \<and> \<not> str_includes ''vessels/urn_mrn_imo_mmsi_1/tank_level'' ''self''
   \<and> subscribeToMQTTTopics (no_prefix None) [tank_level]
       = [''vessels/urn_mrn_imo_mmsi_1/tank_level'', ''vessels/urn:mrn:imo:mmsi:1/tank_level'']
   \<and> topic_matches None ''vessels/urn_mrn_imo_mmsi_1/tank_level''
         ''vessels/urn:mrn:imo:mmsi:1/tank_level'' = Some False
   \<and> handleMQTTMessage bi (no_prefix None) [tank_level] m
         ''vessels/urn:mrn:imo:mmsi:1/tank_level'' messageStr now stamp = (NoRuleFound, m)
   \<and> topic_matches None ''vessels/urn_mrn_imo_mmsi_1/tank_level''
         ''vessels/urn:mrn:imo:mmsi:1/tank:level'' = Some True
   \<and> topic_matches None ''vessels/urn_mrn_imo_mmsi_1/tank_level''
         ''vessels/urn_mrn_imo_mmsi_1/tank_level'' = Some True"
  by (simp add: subscribeToMQTTTopics_def rule_subscriptions_def plain_subscriptions_def
      tank_level_def example_rule_def no_prefix_def expectedTopic_def topic_matches_def
      matches_exact_def plain_exact_def underscore_to_colon_def replace_all_char_def
      handleMQTTMessage_def)

text \<open>
  The regular expression of a \<^verbatim>\<open>+\<close> pattern is not anchored: a topic it accepts is
  accepted with any text before and after it.
\<close>

lemma match_here_append: "match_here re s \<Longrightarrow> match_here re (s @ post)"
  by (induction re s rule: match_here.induct) auto

lemma match_here_regex_test: "match_here re s \<Longrightarrow> regex_test re s"
  by (cases s) auto

lemma regex_test_append: "regex_test re s \<Longrightarrow> regex_test re (s @ post)"
proof (induction s)
  case Nil
  then have "match_here re ([] @ post)"
    using match_here_append [of re "[]" post] by simp
  then show ?case by (simp add: match_here_regex_test)
next
  case (Cons c s)
  then show ?case
    using match_here_append [of re "c # s" post] by auto
qed

lemma regex_test_prepend: "regex_test re s \<Longrightarrow> regex_test re (pre @ s)"
  by (induction pre) auto

lemma regex_test_unanchored: "regex_test re s \<Longrightarrow> regex_test re (pre @ s @ post)"
  by (simp add: regex_test_append regex_test_prepend)

text \<open>
  C9.  The pattern \<^verbatim>\<open>vessels/+/navigation/position\<close> holds a \<^verbatim>\<open>+\<close> and no self
  placeholder; the topic \<^verbatim>\<open>xvessels/a/navigation/position/extra\<close> does not match it
  segment by segment (five segments against four, and the first differs); the matcher
  accepts the topic, whatever the self identifier.
\<close>

theorem unanchored_plus_pattern:
  "CHR ''+'' \<in> set ''vessels/+/navigation/position''
   \<and> \<not> str_includes ''vessels/+/navigation/position'' ''self''
   \<and> \<not> spec_topic_match ''vessels/+/navigation/position'' ''xvessels/a/navigation/position/extra''
   \<and> topic_matches self ''vessels/+/navigation/position'' ''xvessels/a/navigation/position/extra''
     = Some True"
  by (cases self)
     (simp_all add: topic_matches_def matches_plus_def plain_plus_def underscore_to_colon_def
      replace_all_char_def spec_topic_match_def plus_pattern)

section \<open>Context and path\<close>

lemma replace_all_char_Nil2 [simp]: "[] = replace_all_char c d s \<longleftrightarrow> s = []"
  by (simp add: replace_all_char_def)

lemma is_self_iff:
  "is_self (Some urn) tok \<longleftrightarrow>
     urn \<noteq> [] \<and> (tok = replace_all_char (CHR '':'') (CHR ''_'') urn \<or> tok = urn)"
  by (auto simp: is_self_def)

text \<open>
  C4.  Without a configured prefix, for a topic whose segments are \<^verbatim>\<open>vessels\<close>, a vessel
  token and at least one more: the context is \<^verbatim>\<open>vessels.self\<close> when the self identifier
  is resolved and the token equals it or its underscore encoding; otherwise, when the
  token starts with \<^verbatim>\<open>urn_\<close>, the context is \<^verbatim>\<open>vessels.\<close> followed by the token with its
  underscores replaced by colons; and the path is the segments after the token joined
  by dots.
\<close>

theorem context_and_path_from_topic:
  assumes "topicPrefix cfg = []"
    and "split (CHR ''/'') topic = ''vessels'' # vesselToken # seg # rest"
  shows "(selfVesselUrn cfg = Some urn \<and> urn \<noteq> []
            \<and> (vesselToken = urn \<or> vesselToken = replace_all_char (CHR '':'') (CHR ''_'') urn)
          \<longrightarrow> extractContextFromTopic cfg topic = ''vessels.self'')
       \<and> (\<not> is_self (selfVesselUrn cfg) vesselToken \<and> startsWith vesselToken ''urn_''
          \<longrightarrow> extractContextFromTopic cfg topic
               = ''vessels.'' @ replace_all_char (CHR ''_'') (CHR '':'') vesselToken)
       \<and> extractPathFromTopic cfg topic = join (CHR ''.'') (seg # rest)"
  using assms
  by (auto simp: extractContextFromTopic_def extractPathFromTopic_def cleanTopic_def is_self_def)

theorem context_and_path_from_topic_witness:
  "extractContextFromTopic (no_prefix (Some ''urn:mrn:imo:mmsi:368396230''))
      ''vessels/urn_mrn_imo_mmsi_368396230/navigation/position'' = ''vessels.self''
   \<and> extractPathFromTopic (no_prefix (Some ''urn:mrn:imo:mmsi:368396230''))
      ''vessels/urn_mrn_imo_mmsi_368396230/navigation/position'' = ''navigation.position''
   \<and> extractContextFromTopic (no_prefix (Some ''urn:mrn:imo:mmsi:999999999''))
      ''vessels/urn_mrn_imo_mmsi_368396230/navigation/position''
      = ''vessels.urn:mrn:imo:mmsi:368396230''
   \<and> extractPathFromTopic (no_prefix (Some ''urn:mrn:imo:mmsi:999999999''))
      ''vessels/urn_mrn_imo_mmsi_368396230/navigation/position'' = ''navigation.position''"
proof -
  let ?topic = "''vessels/urn_mrn_imo_mmsi_368396230/navigation/position''"
  let ?own = "no_prefix (Some ''urn:mrn:imo:mmsi:368396230'')"
  let ?other = "no_prefix (Some ''urn:mrn:imo:mmsi:999999999'')"
  have sp: "split (CHR ''/'') ?topic
            = ''vessels'' # ''urn_mrn_imo_mmsi_368396230'' # ''navigation'' # [''position'']"
    by simp
  have p1: "topicPrefix ?own = []" and p2: "topicPrefix ?other = []"
    by (simp_all add: no_prefix_def)
  have own: "selfVesselUrn ?own = Some ''urn:mrn:imo:mmsi:368396230''
             \<and> ''urn:mrn:imo:mmsi:368396230'' \<noteq> []
             \<and> (''urn_mrn_imo_mmsi_368396230'' = ''urn:mrn:imo:mmsi:368396230''
                \<or> ''urn_mrn_imo_mmsi_368396230''
                   = replace_all_char (CHR '':'') (CHR ''_'') ''urn:mrn:imo:mmsi:368396230'')"
    by (simp add: no_prefix_def replace_all_char_def)
  have other: "\<not> is_self (selfVesselUrn ?other) ''urn_mrn_imo_mmsi_368396230''
               \<and> startsWith ''urn_mrn_imo_mmsi_368396230'' ''urn_''"
    by (simp add: no_prefix_def is_self_def replace_all_char_def)
  have j: "join (CHR ''.'') (''navigation'' # [''position'']) = ''navigation.position''"
    by simp
  have c: "''vessels.'' @ replace_all_char (CHR ''_'') (CHR '':'') ''urn_mrn_imo_mmsi_368396230''
           = ''vessels.urn:mrn:imo:mmsi:368396230''"
    by (simp add: replace_all_char_def)
  from context_and_path_from_topic [OF p1 sp, of "''urn:mrn:imo:mmsi:368396230''"] own
  have a: "extractContextFromTopic ?own ?topic = ''vessels.self''
           \<and> extractPathFromTopic ?own ?topic = join (CHR ''.'') (''navigation'' # [''position''])"
    by blast
  from context_and_path_from_topic [OF p2 sp, of "''urn:mrn:imo:mmsi:999999999''"] other
  have b: "extractContextFromTopic ?other ?topic
             = ''vessels.'' @ replace_all_char (CHR ''_'') (CHR '':'') ''urn_mrn_imo_mmsi_368396230''
           \<and> extractPathFromTopic ?other ?topic = join (CHR ''.'') (''navigation'' # [''position''])"
    by blast
  from a b show ?thesis
    by (simp only: j c)
qed

section \<open>Payload interpreter\<close>

lemma truthy_prop_object:
  "get_prop d k = Some c \<Longrightarrow> truthy c \<Longrightarrow> k \<noteq> ''values'' \<Longrightarrow> \<exists>fs. d = JObj fs"
  by (cases d) (auto split: if_splits)

text \<open>What the interpreter hands to the delivery step is an object.\<close>

lemma value_only_is_object:
  "parseValueOnlyMessage bi cfg messageStr r topic stamp = Some d \<Longrightarrow> \<exists>fs. d = JObj fs"
  by (auto simp: parseValueOnlyMessage_def delta_def Let_def)

lemma full_is_object:
  "parseFullSignalKMessage bi cfg messageStr r topic stamp = Some d \<Longrightarrow> \<exists>fs. d = JObj fs"
  by (auto simp: parseFullSignalKMessage_def delta_def Let_def
      split: option.splits if_splits dest: truthy_prop_object)

text \<open>
  C6 (as amended).  When the payload text parses to an object whose \<^verbatim>\<open>context\<close> field is
  truthy (a non-empty string, for one) and whose \<^verbatim>\<open>updates\<close> field is an array,
  \<^verbatim>\<open>parseFullSignalKMessage\<close> returns the parsed object itself, whatever the rule, the
  topic and the configuration; and for a rule of the full format without transform the
  handler delivers that object.
\<close>

theorem full_payload_pass_through:
  assumes "json_parse bi messageStr = Some (JObj fs)"
    and "map_of fs ''context'' = Some c" and "truthy c"
    and "map_of fs ''updates'' = Some (JArr us)"
  shows "parseFullSignalKMessage bi cfg messageStr r topic stamp = Some (JObj fs)
       \<and> (payloadFormat r \<noteq> ''value-only'' \<and> transformValue r = None \<longrightarrow>
            parse_and_send bi cfg r topic messageStr stamp = Delivered (JObj fs))"
  using assms
  by (simp add: parseFullSignalKMessage_def parse_and_send_def sendToSignalK_def own_prop_def)

theorem full_payload_pass_through_witness:
  "parseFullSignalKMessage (parses_to sample_delta) (no_prefix None) ''text'' everything
      ''vessels/self/navigation/speedOverGround'' ''2026-01-02T00:00:00.000Z'' = Some sample_delta
   \<and> parse_and_send (parses_to sample_delta) (no_prefix None) everything
        ''vessels/self/navigation/speedOverGround'' ''text'' ''2026-01-02T00:00:00.000Z''
       = Delivered sample_delta"
proof -
  let ?fs = "[(''context'', JStr ''vessels.urn:mrn:imo:mmsi:368396230''),
           (''updates'', JArr [JObj [
              (''source'', JObj [(''label'', JStr ''gps''), (''type'', JStr ''mqtt'')]),
              (''timestamp'', JStr ''2026-01-01T00:00:00.000Z''),
              (''values'', JArr [JObj [(''path'', JStr ''navigation.speedOverGround''),
                                       (''value'', JNum (Fin 5))]])]])]"
  have s: "sample_delta = JObj ?fs"
    by (simp add: sample_delta_def delta_def)
  have 1: "json_parse (parses_to sample_delta) ''text'' = Some (JObj ?fs)"
    by (simp add: parses_to_def s)
  have 2: "map_of ?fs ''context'' = Some (JStr ''vessels.urn:mrn:imo:mmsi:368396230'')"
    by simp
  have 3: "truthy (JStr ''vessels.urn:mrn:imo:mmsi:368396230'')"
    by simp
  have 4: "map_of ?fs ''updates'' = Some (JArr [JObj [
              (''source'', JObj [(''label'', JStr ''gps''), (''type'', JStr ''mqtt'')]),
              (''timestamp'', JStr ''2026-01-01T00:00:00.000Z''),
              (''values'', JArr [JObj [(''path'', JStr ''navigation.speedOverGround''),
                                       (''value'', JNum (Fin 5))]])]])"
    by simp
  have 5: "payloadFormat everything \<noteq> ''value-only'' \<and> transformValue everything = None"
    by (simp add: everything_def example_rule_def)
  from full_payload_pass_through [OF 1 2 3 4, of "no_prefix None" everything
      "''vessels/self/navigation/speedOverGround''" "''2026-01-02T00:00:00.000Z''"] 5
  show ?thesis
    unfolding s by blast
qed

text \<open>
  The claim as the specification states it, for every object that has a \<^verbatim>\<open>context\<close> field
  and an \<^verbatim>\<open>updates\<close> array, fails when the context is the empty string: the object is
  wrapped as the value of a new update whose context and path come from the topic.
\<close>

theorem full_payload_pass_through_counterexample:
  "get_prop empty_context ''context'' = Some (JStr [])
   \<and> get_prop empty_context ''updates'' = Some (JArr [])
   \<and> parseFullSignalKMessage (parses_to empty_context) (no_prefix None) ''text'' everything
        ''vessels/self/navigation/position'' ''2026-01-02T00:00:00.000Z''
      = Some (delta (JStr ''vessels.self'') ''navigation.position'' [] ''2026-01-02T00:00:00.000Z''
                empty_context)
   \<and> parseFullSignalKMessage (parses_to empty_context) (no_prefix None) ''text'' everything
        ''vessels/self/navigation/position'' ''2026-01-02T00:00:00.000Z''
      \<noteq> Some empty_context"
  by (simp add: empty_context_def parseFullSignalKMessage_def parses_to_def own_prop_def
      everything_def example_rule_def no_prefix_def extractContextFromTopic_def
      extractPathFromTopic_def rule_path_def cleanTopic_def is_self_def delta_def)

section \<open>Delivery\<close>

text \<open>
  C8 (as amended).  For a rule without transform, \<^verbatim>\<open>sendToSignalK\<close> hands an object to
  the sink, unchanged, exactly when its \<^verbatim>\<open>context\<close> is truthy and its \<^verbatim>\<open>updates\<close> is an
  array, empty or not, and otherwise returns without the call.  For every rule, the
  sink is called only if the context is truthy and \<^verbatim>\<open>updates\<close> is an array.
\<close>

theorem delivery_validation:
  "(transformValue r = None \<longrightarrow>
      sendToSignalK (JObj fs) r
        = (if truthy (own_prop fs ''context'') \<and> isArray (own_prop fs ''updates'')
           then Sent (JObj fs) else Invalid))
   \<and> (sendToSignalK (JObj fs) r = Sent d \<longrightarrow>
        truthy (own_prop fs ''context'') \<and> isArray (own_prop fs ''updates''))"
  by (cases "own_prop fs ''updates''")
     (auto simp: sendToSignalK_def split: option.splits if_splits attempt.splits)

theorem delivery_validation_witness:
  "sendToSignalK sample_delta everything = Sent sample_delta
   \<and> sendToSignalK no_context everything = Invalid"
proof -
  have t: "transformValue everything = None"
    by (simp add: everything_def example_rule_def)
  let ?fs = "[(''context'', JStr ''vessels.urn:mrn:imo:mmsi:368396230''),
           (''updates'', JArr [JObj [
              (''source'', JObj [(''label'', JStr ''gps''), (''type'', JStr ''mqtt'')]),
              (''timestamp'', JStr ''2026-01-01T00:00:00.000Z''),
              (''values'', JArr [JObj [(''path'', JStr ''navigation.speedOverGround''),
                                       (''value'', JNum (Fin 5))]])]])]"
  have s: "sample_delta = JObj ?fs"
    by (simp add: sample_delta_def delta_def)
  have v: "truthy (own_prop ?fs ''context'') \<and> isArray (own_prop ?fs ''updates'')"
    by (simp add: own_prop_def)
  have n: "\<not> (truthy (own_prop [(''updates'', JArr [])] ''context'')
              \<and> isArray (own_prop [(''updates'', JArr [])] ''updates''))"
    by (simp add: own_prop_def)
  from delivery_validation [of everything ?fs] t v
  have a: "sendToSignalK (JObj ?fs) everything = Sent (JObj ?fs)"
    by simp
  from delivery_validation [of everything "[(''updates'', JArr [])]"] t n
  have b: "sendToSignalK (JObj [(''updates'', JArr [])]) everything = Invalid"
    by simp
  from a b show ?thesis
    by (simp only: s no_context_def) 
qed

text \<open>
  The claim as the specification states it, delivery only with a non-empty \<^verbatim>\<open>updates\<close>
  array, fails on an object with a context and an empty \<^verbatim>\<open>updates\<close> array: a payload of
  the full format that parses to it passes through the interpreter and is handed to
  the sink.
\<close>

theorem delivery_validation_counterexample:
  "own_prop [(''context'', JStr ''vessels.self''), (''updates'', JArr [])] ''updates'' = JArr []
   \<and> sendToSignalK empty_updates everything = Sent empty_updates
   \<and> handleMQTTMessage (parses_to empty_updates) (no_prefix None) [everything] []
        ''vessels/self/navigation/position'' ''text'' 0 ''2026-01-02T00:00:00.000Z''
      = (Delivered empty_updates, [(''vessels/self/navigation/position:text'', 0)])"
  by (simp add: empty_updates_def sendToSignalK_def own_prop_def everything_def example_rule_def
      handleMQTTMessage_def no_prefix_def topic_matches_def matches_hash_def replace_first_def plain_hash_def
      expectedTopic_def isMMSIExcluded_def parseMMSIExclusionList_def dedup_step_def map_has_def
      cleanup_def messageKey_def parse_and_send_def parseFullSignalKMessage_def parses_to_def)

end
